theory Spec2Isabelle
  imports Main "HOL-Library.AList"
begin

section \<open>Strings and regular expressions\<close>

text \<open>
  A JavaScript string is modelled as a \<^typ>\<open>string\<close>, one \<^typ>\<open>char\<close> per code unit. The
  model is exact on ASCII text: \<open>toLowerCase\<close> and the \<open>i\<close> flag fold only the letters
  \<open>A\<close> to \<open>Z\<close>, and every character outside \<open>[A-Za-z0-9_]\<close> is a non-word character.
\<close>

definition is_upper :: "char \<Rightarrow> bool" where
  "is_upper c = (65 \<le> (of_char c :: nat) \<and> (of_char c :: nat) \<le> 90)"

definition is_lower :: "char \<Rightarrow> bool" where
  "is_lower c = (97 \<le> (of_char c :: nat) \<and> (of_char c :: nat) \<le> 122)"

definition is_digit :: "char \<Rightarrow> bool" where
  "is_digit c = (48 \<le> (of_char c :: nat) \<and> (of_char c :: nat) \<le> 57)"

definition lower_char :: "char \<Rightarrow> char" where
  "lower_char c = (if is_upper c then char_of ((of_char c :: nat) + 32) else c)"

definition toLowerCase :: "string \<Rightarrow> string" where
  "toLowerCase s = map lower_char s"

text \<open>The class \<open>\w\<close> that decides where \<open>\b\<close> holds.\<close>

definition is_word_char :: "char \<Rightarrow> bool" where
  "is_word_char c = (is_upper c \<or> is_lower c \<or> is_digit c \<or> c = CHR ''_'')"

definition word_boundary :: "string \<Rightarrow> nat \<Rightarrow> bool" where
  "word_boundary s i =
     ((0 < i \<and> i \<le> length s \<and> is_word_char (s ! (i - 1)))
        \<noteq> (i < length s \<and> is_word_char (s ! i)))"

text \<open>
  The fragment of the regular expression language that the planner and the log analyzer
  use: literals, \<open>x?\<close>, concatenation, \<open>x|y\<close> and \<open>\b\<close>. All patterns of the program carry
  the \<open>i\<close> flag, so a literal is compared up to letter case.
\<close>

datatype rx = Lit string | Opt rx | Seq rx rx | Alt rx rx | WordB

fun starts_with :: "string \<Rightarrow> string \<Rightarrow> bool" where
  "starts_with [] s = True"
| "starts_with (c # w) [] = False"
| "starts_with (c # w) (d # s) = (lower_char c = lower_char d \<and> starts_with w s)"

definition lit_at :: "string \<Rightarrow> string \<Rightarrow> nat \<Rightarrow> bool" where
  "lit_at w s i = (i \<le> length s \<and> starts_with w (drop i s))"

text \<open>
  \<open>ends r s i\<close> lists the positions at which a match of \<open>r\<close> that starts at \<open>i\<close> can end,
  in the order a backtracking matcher tries them (left alternative first, \<open>?\<close> greedy).
\<close>

primrec ends :: "rx \<Rightarrow> string \<Rightarrow> nat \<Rightarrow> nat list" where
  "ends (Lit w) s i = (if lit_at w s i then [i + length w] else [])"
| "ends (Opt r) s i = ends r s i @ [i]"
| "ends (Seq a b) s i = concat (map (ends b s) (ends a s i))"
| "ends (Alt a b) s i = ends a s i @ ends b s i"
| "ends WordB s i = (if word_boundary s i then [i] else [])"

definition match_at :: "rx \<Rightarrow> string \<Rightarrow> nat \<Rightarrow> bool" where
  "match_at r s i = (ends r s i \<noteq> [])"

text \<open>
  The search of \<open>RegExp.prototype.exec\<close>: the leftmost start position from \<open>from\<close> on, up
  to and including the end of the string.
\<close>

definition rx_search :: "rx \<Rightarrow> string \<Rightarrow> nat \<Rightarrow> nat option" where
  "rx_search r s from = find (match_at r s) [from ..< Suc (length s)]"

text \<open>\<open>test\<close> on a pattern without the \<open>g\<close> flag: stateless, always from position 0.\<close>

definition rx_test :: "rx \<Rightarrow> string \<Rightarrow> bool" where
  "rx_test r s = (rx_search r s 0 \<noteq> None)"

text \<open>
  \<open>test\<close> on a pattern with the \<open>g\<close> flag: the search starts at the pattern object's
  \<open>lastIndex\<close>, which a match moves to the end of the match and a failure resets to 0.
  The result is the answer and the new \<open>lastIndex\<close>.
\<close>

definition rx_test_global :: "rx \<Rightarrow> nat \<Rightarrow> string \<Rightarrow> bool \<times> nat" where
  "rx_test_global r lastIndex s =
     (if length s < lastIndex then (False, 0)
      else case rx_search r s lastIndex of
             None \<Rightarrow> (False, 0)
           | Some k \<Rightarrow> (True, (case ends r s k of [] \<Rightarrow> k | e # es \<Rightarrow> e)))"

fun alts :: "string list \<Rightarrow> rx" where
  "alts [] = Lit []"
| "alts [w] = Lit w"
| "alts (w # ws) = Alt (Lit w) (alts ws)"

section \<open>Types of the orchestrator\<close>

record Tool =
  tool_name :: string
  description :: string
  input :: string

record AgentInfo =
  name :: string
  url :: string
  tools :: "Tool list"

record PlanStep =
  agent :: string
  task :: string
  inputFrom :: string
  dependsOn :: "string option"

section \<open>Planner\<close>

definition sanitizer_rx :: rx where
  "sanitizer_rx = alts [''sanitize'', ''sensitive'', ''pii'', ''personal'']"

definition log_analyst_rx :: rx where
  "log_analyst_rx =
     Alt (Seq (Lit ''log'') (Opt (Lit ''s'')))
       (Alt (Lit ''analyze'')
         (Alt (Seq (Lit ''error'') (Opt (Lit ''s'')))
              (Seq (Lit ''warning'') (Opt (Lit ''s'')))))"

definition report_rx :: rx where
  "report_rx = alts [''summary'', ''report'', ''visual'', ''brief'', ''chart'']"

definition needsSanitizer :: "string \<Rightarrow> bool" where
  "needsSanitizer request = rx_test sanitizer_rx (toLowerCase request)"

definition needsLogAnalyst :: "string \<Rightarrow> bool" where
  "needsLogAnalyst request = rx_test log_analyst_rx (toLowerCase request)"

definition needsReport :: "string \<Rightarrow> bool" where
  "needsReport request = rx_test report_rx (toLowerCase request)"

definition generatePlan :: "string \<Rightarrow> PlanStep list" where
  "generatePlan request =
     (let sanitizer = needsSanitizer request;
          logAnalyst = needsLogAnalyst request;
          report = needsReport request
      in (if logAnalyst
          then [\<lparr>agent = ''log-analyzer'', task = ''analyze'', inputFrom = ''user'',
                 dependsOn = None\<rparr>]
          else [])
         @ (if report \<and> logAnalyst
            then [\<lparr>agent = ''report-generator'', task = ''generate'',
                   inputFrom = ''log-analyzer'', dependsOn = Some ''log-analyzer''\<rparr>]
            else if report
            then [\<lparr>agent = ''report-generator'', task = ''generate'', inputFrom = ''user'',
                   dependsOn = None\<rparr>]
            else [])
         @ (if sanitizer \<and> \<not> logAnalyst \<and> \<not> report
            then [\<lparr>agent = ''sanitizer'', task = ''sanitize'', inputFrom = ''user'',
                   dependsOn = None\<rparr>]
            else []))"

section \<open>Values exchanged between the services\<close>

text \<open>
  Request and response bodies are JSON. The numbers that the services put into their
  bodies are counts, so a number is an integer here; only whether it is zero matters to
  the program.
\<close>

datatype json =
    JNull
  | JBool bool
  | JNum int
  | JStr string
  | JArr "json list"
  | JObj "(string \<times> json) list"

text \<open>JavaScript truthiness of a parsed JSON value, as \<open>!x\<close> and \<open>x || y\<close> test it.\<close>

fun truthy :: "json \<Rightarrow> bool" where
  "truthy JNull = False"
| "truthy (JBool b) = b"
| "truthy (JNum n) = (n \<noteq> 0)"
| "truthy (JStr s) = (s \<noteq> [])"
| "truthy (JArr xs) = True"
| "truthy (JObj fs) = True"

text \<open>The own field of a parsed object; of a repeated key, \<open>JSON.parse\<close> keeps the last.\<close>

fun field :: "string \<Rightarrow> json \<Rightarrow> json option" where
  "field k (JObj fs) = map_of (rev fs) k"
| "field k v = None"

text \<open>
  A plain object used as a dictionary inherits the members of \<open>Object.prototype\<close>, so a
  read of one of these keys finds a value although the dictionary holds no entry.
\<close>

definition object_prototype_members :: "string list" where
  "object_prototype_members =
     [''constructor'', ''__defineGetter__'', ''__defineSetter__'', ''hasOwnProperty'',
      ''__lookupGetter__'', ''__lookupSetter__'', ''isPrototypeOf'',
      ''propertyIsEnumerable'', ''toString'', ''valueOf'', ''__proto__'',
      ''toLocaleString'']"

datatype js_value = Undefined | Json json | Inherited string

fun js_truthy :: "js_value \<Rightarrow> bool" where
  "js_truthy Undefined = False"
| "js_truthy (Json v) = truthy v"
| "js_truthy (Inherited k) = True"

definition inherited :: "string \<Rightarrow> js_value" where
  "inherited k = (if k \<in> set object_prototype_members then Inherited k else Undefined)"

section \<open>Registry\<close>

text \<open>
  \<open>AgentRegistry\<close> wraps a \<open>Map\<close>, which keeps its keys in insertion order and leaves a
  key in place when its value is replaced.
\<close>

type_synonym registry = "(string \<times> AgentInfo) list"

definition empty_registry :: registry where
  "empty_registry = []"

definition register :: "AgentInfo \<Rightarrow> registry \<Rightarrow> registry" where
  "register agentInfo agents = AList.update (name agentInfo) agentInfo agents"

definition get :: "registry \<Rightarrow> string \<Rightarrow> AgentInfo option" where
  "get agents n = map_of agents n"

definition getAll :: "registry \<Rightarrow> AgentInfo list" where
  "getAll agents = map snd agents"

definition has :: "registry \<Rightarrow> string \<Rightarrow> bool" where
  "has agents n = (map_of agents n \<noteq> None)"

definition clear :: "registry \<Rightarrow> registry" where
  "clear agents = []"

text \<open>The operations that change the registry, and a history of them from start-up.\<close>

datatype registry_op = Register AgentInfo | Clear

fun apply_op :: "registry \<Rightarrow> registry_op \<Rightarrow> registry" where
  "apply_op agents (Register agentInfo) = register agentInfo agents"
| "apply_op agents Clear = clear agents"

definition registry_after :: "registry_op list \<Rightarrow> registry" where
  "registry_after ops = foldl apply_op empty_registry ops"

section \<open>The planner inside the orchestrator process\<close>

text \<open>
  A \<open>RegExp\<close> object: its pattern, its \<open>g\<close> flag and its \<open>lastIndex\<close>. \<open>test\<close> reads and
  writes \<open>lastIndex\<close> only when the object carries the \<open>g\<close> flag; without it the search
  starts at 0 and the object is left as it is.
\<close>

record RegExp =
  source :: rx
  global :: bool
  lastIndex :: nat

definition RegExp_test :: "RegExp \<Rightarrow> string \<Rightarrow> bool \<times> RegExp" where
  "RegExp_test re s =
     (if global re
      then (case rx_test_global (source re) (lastIndex re) s of
              (b, li) \<Rightarrow> (b, re\<lparr>lastIndex := li\<rparr>))
      else (rx_test (source re) s, re))"

text \<open>A literal \<open>/r/i\<close> in a function body: each evaluation makes a new object.\<close>

definition regex_literal :: "rx \<Rightarrow> RegExp" where
  "regex_literal r = \<lparr>source = r, global = False, lastIndex = 0\<rparr>"

text \<open>
  The module-level state of the orchestrator process is the registry singleton
  \<open>agentRegistry\<close>; the planner and the executor objects have no fields. Here
  \<open>generatePlan\<close> is written as a method running in that process: it is given the state
  of the process and returns the state it leaves, and each \<open>test\<close> is a call on a
  \<open>RegExp\<close> object. What the method reads and writes of the process is then a property
  of this definition and not of its type.
\<close>

definition Planner_generatePlan :: "registry \<Rightarrow> string \<Rightarrow> PlanStep list \<times> registry" where
  "Planner_generatePlan agentRegistry request =
     (let lowerRequest = toLowerCase request;
          sanitizer = fst (RegExp_test (regex_literal sanitizer_rx) lowerRequest);
          logAnalyst = fst (RegExp_test (regex_literal log_analyst_rx) lowerRequest);
          report = fst (RegExp_test (regex_literal report_rx) lowerRequest)
      in ((if logAnalyst
           then [\<lparr>agent = ''log-analyzer'', task = ''analyze'', inputFrom = ''user'',
                  dependsOn = None\<rparr>]
           else [])
          @ (if report \<and> logAnalyst
             then [\<lparr>agent = ''report-generator'', task = ''generate'',
                    inputFrom = ''log-analyzer'', dependsOn = Some ''log-analyzer''\<rparr>]
             else if report
             then [\<lparr>agent = ''report-generator'', task = ''generate'', inputFrom = ''user'',
                    dependsOn = None\<rparr>]
             else [])
          @ (if sanitizer \<and> \<not> logAnalyst \<and> \<not> report
             then [\<lparr>agent = ''sanitizer'', task = ''sanitize'', inputFrom = ''user'',
                    dependsOn = None\<rparr>]
             else []),
          agentRegistry))"

section \<open>Executor\<close>

datatype exec_error =
    AgentNotFound string
  | DependencyNotMet string
  | ExecutionFailed string string

fun error_message :: "exec_error \<Rightarrow> string" where
  "error_message (AgentNotFound a) = ''Agent '' @ a @ '' not found in registry''"
| "error_message (DependencyNotMet src) =
     ''Dependency not met: '' @ src @ '' has no results''"
| "error_message (ExecutionFailed a msg) = ''Failed to execute '' @ a @ '': '' @ msg"

text \<open>
  \<open>endpointMap\<close> is a plain object too: for an agent name that is a member of
  \<open>Object.prototype\<close> the lookup yields that member, and the template literal renders it.
\<close>

definition endpointMap :: "(string \<times> string) list" where
  "endpointMap =
     [(''sanitizer'', ''/sanitize''), (''log-analyzer'', ''/analyze''),
      (''report-generator'', ''/generate-report'')]"

definition render_inherited :: "string \<Rightarrow> string" where
  "render_inherited k =
     (if k = ''__proto__'' then ''[object Object]''
      else if k = ''constructor'' then ''function Object() { [native code] }''
      else ''function '' @ k @ ''() { [native code] }'')"

definition getEndpointForTask :: "string \<Rightarrow> string \<Rightarrow> string" where
  "getEndpointForTask a t =
     (case map_of endpointMap a of
        Some path \<Rightarrow> path
      | None \<Rightarrow> (if a \<in> set object_prototype_members then render_inherited a
                 else ''/'' @ t))"

text \<open>
  One \<open>axios.post(url, {data: input})\<close>. The network and the agents behind it are the
  environment: \<open>post\<close> maps the environment's state, the URL and the input to the
  outcome and the next state. A 2xx response gives \<open>Inr\<close> of its parsed body; a network
  error, a timeout or another status gives \<open>Inl\<close> of the text that
  \<open>error.response?.data?.error || error.message\<close> renders to.
\<close>

record dispatch =
  d_step :: PlanStep
  d_url :: string
  d_input :: js_value

type_synonym 'w post = "'w \<Rightarrow> string \<Rightarrow> js_value \<Rightarrow> (string + json) \<times> 'w"

text \<open>
  The state of one run of \<open>executePlan\<close>: the \<open>results\<close> object (its own properties),
  the trace, the calls dispatched so far and the environment. A trace line is
  \<open>agent: JSON.stringify(value)\<close>; the model keeps the agent and the value.
\<close>

record 'w exec_state =
  results :: "string \<rightharpoonup> json"
  executionTrace :: "(string \<times> json) list"
  calls :: "dispatch list"
  world :: 'w

text \<open>\<open>results[k]\<close>: the own property, else what \<open>Object.prototype\<close> provides.\<close>

definition results_get :: "(string \<rightharpoonup> json) \<Rightarrow> string \<Rightarrow> js_value" where
  "results_get r k = (case r k of Some v \<Rightarrow> Json v | None \<Rightarrow> inherited k)"

text \<open>
  \<open>results[k] = v\<close> creates or replaces an own property, except for the key
  \<open>__proto__\<close>: that assignment runs the inherited setter and creates no own property.
  The setter may replace the prototype of \<open>results\<close>, which the model does not follow:
  its reads from \<open>results\<close> are exact as long as no step of that name has completed.
\<close>

definition results_set :: "(string \<rightharpoonup> json) \<Rightarrow> string \<Rightarrow> json \<Rightarrow> (string \<rightharpoonup> json)" where
  "results_set r k v = (if k = ''__proto__'' then r else r(k \<mapsto> v))"

text \<open>
  \<open>response.data.summary || response.data.message || 'completed'\<close>. Reading a property
  of \<open>null\<close> throws a \<open>TypeError\<close>, which the \<open>catch\<close> around the call receives.
\<close>

definition or_else :: "json option \<Rightarrow> json \<Rightarrow> json" where
  "or_else a b = (case a of Some v \<Rightarrow> (if truthy v then v else b) | None \<Rightarrow> b)"

definition trace_value :: "json \<Rightarrow> string + json" where
  "trace_value d =
     (if d = JNull
      then Inl (''Cannot read properties of null (reading '' @ [CHR 0x27] @ ''summary''
                  @ [CHR 0x27] @ '')'')
      else Inr (or_else (field ''summary'' d)
                  (or_else (field ''message'' d) (JStr ''completed''))))"

text \<open>The body of the \<open>for\<close> loop: \<open>None\<close> when the step completes, else the error thrown.\<close>

definition exec_step ::
  "registry \<Rightarrow> 'w post \<Rightarrow> json \<Rightarrow> PlanStep \<Rightarrow> 'w exec_state
     \<Rightarrow> exec_error option \<times> 'w exec_state" where
  "exec_step agents post initialData step st =
     (case get agents (agent step) of
        None \<Rightarrow> (Some (AgentNotFound (agent step)), st)
      | Some a \<Rightarrow>
          (let inp = (if inputFrom step = ''user'' then Json initialData
                      else results_get (results st) (inputFrom step))
           in if inputFrom step \<noteq> ''user'' \<and> \<not> js_truthy inp
              then (Some (DependencyNotMet (inputFrom step)), st)
              else
                (let u = url a @ getEndpointForTask (agent step) (task step);
                     (outcome, w') = post (world st) u inp;
                     st1 = st\<lparr>calls := calls st @ [\<lparr>d_step = step, d_url = u, d_input = inp\<rparr>],
                              world := w'\<rparr>
                 in case outcome of
                      Inl msg \<Rightarrow> (Some (ExecutionFailed (agent step) msg), st1)
                    | Inr d \<Rightarrow>
                        (let st2 = st1\<lparr>results := results_set (results st1) (agent step) d\<rparr>
                         in case trace_value d of
                              Inl msg \<Rightarrow> (Some (ExecutionFailed (agent step) msg), st2)
                            | Inr v \<Rightarrow>
                                (None, st2\<lparr>executionTrace :=
                                             executionTrace st2 @ [(agent step, v)]\<rparr>)))))"

fun run_steps ::
  "registry \<Rightarrow> 'w post \<Rightarrow> json \<Rightarrow> PlanStep list \<Rightarrow> 'w exec_state
     \<Rightarrow> exec_error option \<times> 'w exec_state" where
  "run_steps agents post initialData [] st = (None, st)"
| "run_steps agents post initialData (step # rest) st =
     (case exec_step agents post initialData step st of
        (Some e, st') \<Rightarrow> (Some e, st')
      | (None, st') \<Rightarrow> run_steps agents post initialData rest st')"

definition initial_state :: "'w \<Rightarrow> 'w exec_state" where
  "initial_state w = \<lparr>results = Map.empty, executionTrace = [], calls = [], world = w\<rparr>"

record execution_result =
  success :: bool
  er_results :: "string \<rightharpoonup> json"
  er_executionTrace :: "(string \<times> json) list"

text \<open>
  \<open>executePlan\<close> returns the aggregated result or throws; the model also returns the
  calls it dispatched and the environment it leaves behind.
\<close>

definition executePlan ::
  "registry \<Rightarrow> 'w post \<Rightarrow> 'w \<Rightarrow> PlanStep list \<Rightarrow> json
     \<Rightarrow> (exec_error + execution_result) \<times> dispatch list \<times> 'w" where
  "executePlan agents post w plan initialData =
     (case run_steps agents post initialData plan (initial_state w) of
        (Some e, st) \<Rightarrow> (Inl e, calls st, world st)
      | (None, st) \<Rightarrow>
          (Inr \<lparr>success = True, er_results = results st,
                er_executionTrace = executionTrace st\<rparr>,
           calls st, world st))"

section \<open>The \<open>/plan-and-run\<close> endpoint\<close>

record PlanAndRunRequest =
  request :: "string option"
  data :: "json option"

text \<open>
  The responses of the handler: status 400 with \<open>{error}\<close>; status 200 with
  \<open>{message, plan, results}\<close> for an empty plan; status 200 with the request, the plan
  and the fields of the execution result; status 500 with \<open>{error}\<close>, the message of
  what \<open>executePlan\<close> threw.
\<close>

datatype response =
    BadRequest string
  | NoAgentsMatched string "PlanStep list" "string \<rightharpoonup> json"
  | Completed string "PlanStep list" execution_result
  | ServerError string

text \<open>What the handler invokes, in order.\<close>

datatype event =
    PlannerInvoked string
  | ExecutorInvoked "PlanStep list" json
  | AgentCalled dispatch

text \<open>\<open>data || request\<close>: a missing or falsy \<open>data\<close> gives the request text.\<close>

definition initial_payload :: "string \<Rightarrow> json option \<Rightarrow> json" where
  "initial_payload req d = or_else d (JStr req)"

definition plan_and_run ::
  "registry \<Rightarrow> 'w post \<Rightarrow> 'w \<Rightarrow> PlanAndRunRequest \<Rightarrow> response \<times> event list \<times> 'w" where
  "plan_and_run agents post w body =
     (case request body of
        None \<Rightarrow> (BadRequest ''Missing required field: request'', [], w)
      | Some req \<Rightarrow>
          if req = [] then (BadRequest ''Missing required field: request'', [], w)
          else
            (let plan = generatePlan req
             in if length plan = 0
                then (NoAgentsMatched ''No agents matched the request'' [] Map.empty,
                      [PlannerInvoked req], w)
                else
                  (let payload = initial_payload req (data body);
                       (res, cs, w') = executePlan agents post w plan payload;
                       evs = [PlannerInvoked req, ExecutorInvoked plan payload]
                               @ map AgentCalled cs
                   in case res of
                        Inl e \<Rightarrow> (ServerError (error_message e), evs, w')
                      | Inr r \<Rightarrow> (Completed req plan r, evs, w'))))"

section \<open>Log analyzer\<close>

text \<open>
  \<open>ERROR_PATTERNS\<close>: four pattern objects shared by all requests of the process. They
  carry the \<open>g\<close> flag, so each keeps a \<open>lastIndex\<close> between calls of \<open>test\<close>.
\<close>

definition critical_rx :: rx where
  "critical_rx =
     Seq WordB (Seq (alts [''fatal'', ''critical'', ''panic'', ''crash'', ''emergency''])
                    WordB)"

definition error_rx :: rx where
  "error_rx =
     Seq WordB (Seq (alts [''error'', ''failed'', ''failure'', ''exception'']) WordB)"

definition warning_rx :: rx where
  "warning_rx =
     Seq WordB (Seq (alts [''warning'', ''warn'', ''deprecated'', ''caution'']) WordB)"

definition info_rx :: rx where
  "info_rx = Seq WordB (Seq (alts [''info'', ''notice'', ''debug'']) WordB)"

record finding =
  f_line :: nat
  f_text :: string

text \<open>The variables of the scan: the \<open>lastIndex\<close> of each pattern, counters, findings.\<close>

record scan =
  critical_lastIndex :: nat
  error_lastIndex :: nat
  warning_lastIndex :: nat
  info_lastIndex :: nat
  criticalCount :: nat
  errorCount :: nat
  warningCount :: nat
  infoCount :: nat
  findings_critical :: "finding list"
  findings_errors :: "finding list"
  findings_warnings :: "finding list"

text \<open>The callback of \<open>lines.forEach\<close>, applied to a line and its index.\<close>

definition scan_line :: "scan \<Rightarrow> nat \<times> string \<Rightarrow> scan" where
  "scan_line sc p =
     (let index = fst p; l = snd p;
          (c, ci) = rx_test_global critical_rx (critical_lastIndex sc) l;
          sc1 = sc\<lparr>critical_lastIndex := ci\<rparr>
      in if c
         then sc1\<lparr>criticalCount := criticalCount sc1 + 1,
                  findings_critical :=
                    findings_critical sc1 @ [\<lparr>f_line = index + 1, f_text = take 100 l\<rparr>]\<rparr>
         else
           (let (e, ei) = rx_test_global error_rx (error_lastIndex sc1) l;
                sc2 = sc1\<lparr>error_lastIndex := ei\<rparr>
            in if e
               then sc2\<lparr>errorCount := errorCount sc2 + 1,
                        findings_errors :=
                          findings_errors sc2 @ [\<lparr>f_line = index + 1, f_text = take 100 l\<rparr>]\<rparr>
               else
                 (let (w, wi) = rx_test_global warning_rx (warning_lastIndex sc2) l;
                      sc3 = sc2\<lparr>warning_lastIndex := wi\<rparr>
                  in if w
                     then sc3\<lparr>warningCount := warningCount sc3 + 1,
                              findings_warnings :=
                                findings_warnings sc3
                                  @ [\<lparr>f_line = index + 1, f_text = take 100 l\<rparr>]\<rparr>
                     else
                       (let (i, ii) = rx_test_global info_rx (info_lastIndex sc3) l;
                            sc4 = sc3\<lparr>info_lastIndex := ii\<rparr>
                        in if i then sc4\<lparr>infoCount := infoCount sc4 + 1\<rparr> else sc4))))"

definition scan_lines :: "scan \<Rightarrow> string list \<Rightarrow> scan" where
  "scan_lines sc ls = foldl scan_line sc (enumerate 0 ls)"

text \<open>The \<open>lastIndex\<close> values are what one request leaves to the next.\<close>

record patterns =
  p_critical :: nat
  p_error :: nat
  p_warning :: nat
  p_info :: nat

definition fresh_patterns :: patterns where
  "fresh_patterns = \<lparr>p_critical = 0, p_error = 0, p_warning = 0, p_info = 0\<rparr>"

definition start_scan :: "patterns \<Rightarrow> scan" where
  "start_scan ps =
     \<lparr>critical_lastIndex = p_critical ps, error_lastIndex = p_error ps,
      warning_lastIndex = p_warning ps, info_lastIndex = p_info ps,
      criticalCount = 0, errorCount = 0, warningCount = 0, infoCount = 0,
      findings_critical = [], findings_errors = [], findings_warnings = []\<rparr>"

definition patterns_of :: "scan \<Rightarrow> patterns" where
  "patterns_of sc =
     \<lparr>p_critical = critical_lastIndex sc, p_error = error_lastIndex sc,
      p_warning = warning_lastIndex sc, p_info = info_lastIndex sc\<rparr>"

text \<open>\<open>split('\n')\<close>: the pieces between line feeds; the empty string gives one piece.\<close>

fun split_lines :: "string \<Rightarrow> string list" where
  "split_lines [] = [[]]"
| "split_lines (c # cs) =
     (if c = CHR 0x0A then [] # split_lines cs
      else (case split_lines cs of
              [] \<Rightarrow> [[c]]
            | l # ls \<Rightarrow> (c # l) # ls))"

fun string_of_nat :: "nat \<Rightarrow> string" where
  "string_of_nat n =
     (if n < 10 then [char_of (48 + n)]
      else string_of_nat (n div 10) @ [char_of (48 + n mod 10)])"

text \<open>
  The reply of the sanitizer's \<open>/sanitize\<close> to the nested call, as far as the analyzer
  reads it; the sanitizer is the environment of the analyzer: \<open>Inl\<close> is a call that
  throws (network error, timeout or error status).
\<close>

record sanitize_reply =
  sanitized :: string
  count :: nat
  sr_message :: string

type_synonym sanitizer = "string \<Rightarrow> string + sanitize_reply"

record analysis =
  totalLines :: nat
  critical :: nat
  errors :: nat
  warnings :: nat
  info :: nat
  top_critical :: "finding list"
  top_errors :: "finding list"
  top_warnings :: "finding list"

record agentToAgentCall =
  called :: string
  a2a_url :: string
  a2a_success :: bool

record analyze_body =
  ab_success :: bool
  ab_analysis :: analysis
  sanitization :: "(nat \<times> string) option"
  ab_agentToAgentCall :: agentToAgentCall
  summary :: string
  ab_message :: string

datatype analyze_response =
    Ok200 analyze_body
  | Error400 string
  | Error500 string

text \<open>
  The analysis of the text that reaches it (the sanitized text, or the raw one): the
  \<open>analysis\<close> object of the response, and the scan for the summary and the patterns.
\<close>

definition analyze_text :: "patterns \<Rightarrow> string \<Rightarrow> analysis \<times> scan" where
  "analyze_text ps sanitizedData =
     (let ls = split_lines sanitizedData;
          sc = scan_lines (start_scan ps) ls
      in (\<lparr>totalLines = length ls, critical = criticalCount sc, errors = errorCount sc,
           warnings = warningCount sc, info = infoCount sc,
           top_critical = take 5 (findings_critical sc),
           top_errors = take 5 (findings_errors sc),
           top_warnings = take 5 (findings_warnings sc)\<rparr>, sc))"

text \<open>
  The handler of \<open>/analyze\<close> on a body whose \<open>data\<close> is a string or missing, as its
  request type declares. Its result is the response, the nested calls it made with their
  outcomes, and the state of the patterns afterwards. On such a body nothing between
  the outer \<open>try\<close> and \<open>catch\<close> throws, so the handler never answers 500.
\<close>

definition analyze ::
  "string \<Rightarrow> sanitizer \<Rightarrow> patterns \<Rightarrow> string option
     \<Rightarrow> analyze_response \<times> (string \<times> (string + sanitize_reply)) list \<times> patterns" where
  "analyze sanitizer_url san ps d =
     (case d of
        None \<Rightarrow> (Error400 ''Missing required field: data'', [], ps)
      | Some dat \<Rightarrow>
          if dat = [] then (Error400 ''Missing required field: data'', [], ps)
          else
            (let reply = san dat;
                 sanitizedData = (case reply of Inl err \<Rightarrow> dat | Inr r \<Rightarrow> sanitized r);
                 sanitizationInfo =
                   (case reply of Inl err \<Rightarrow> None | Inr r \<Rightarrow> Some (count r, sr_message r));
                 (an, sc) = analyze_text ps sanitizedData
             in (Ok200
                   \<lparr>ab_success = True,
                    ab_analysis = an,
                    sanitization = sanitizationInfo,
                    ab_agentToAgentCall =
                      \<lparr>called = ''sanitizer'', a2a_url = sanitizer_url,
                       a2a_success = (sanitizationInfo \<noteq> None)\<rparr>,
                    summary =
                      ''Analyzed '' @ string_of_nat (totalLines an) @ '' log lines: ''
                        @ string_of_nat (criticalCount sc) @ '' critical, ''
                        @ string_of_nat (errorCount sc) @ '' errors, ''
                        @ string_of_nat (warningCount sc) @ '' warnings'',
                    ab_message = ''Log analysis complete with sanitization''\<rparr>,
                 [(dat, reply)], patterns_of sc)))"

subsection \<open>The analyzer as an agent on the network\<close>

text \<open>The response body as \<open>res.json\<close> writes it.\<close>

definition finding_json :: "finding \<Rightarrow> json" where
  "finding_json f = JObj [(''line'', JNum (int (f_line f))), (''text'', JStr (f_text f))]"

definition analysis_json :: "analysis \<Rightarrow> json" where
  "analysis_json a =
     JObj [(''totalLines'', JNum (int (totalLines a))),
           (''critical'', JNum (int (critical a))),
           (''errors'', JNum (int (errors a))),
           (''warnings'', JNum (int (warnings a))),
           (''info'', JNum (int (info a))),
           (''findings'',
              JObj [(''critical'', JArr (map finding_json (top_critical a))),
                    (''errors'', JArr (map finding_json (top_errors a))),
                    (''warnings'', JArr (map finding_json (top_warnings a)))])]"

definition analyze_body_json :: "analyze_body \<Rightarrow> json" where
  "analyze_body_json b =
     JObj [(''success'', JBool (ab_success b)),
           (''analysis'', analysis_json (ab_analysis b)),
           (''sanitization'',
              (case sanitization b of
                 None \<Rightarrow> JNull
               | Some (c, m) \<Rightarrow> JObj [(''count'', JNum (int c)), (''message'', JStr m)])),
           (''agentToAgentCall'',
              JObj [(''called'', JStr (called (ab_agentToAgentCall b))),
                    (''url'', JStr (a2a_url (ab_agentToAgentCall b))),
                    (''success'', JBool (a2a_success (ab_agentToAgentCall b)))]),
           (''summary'', JStr (summary b)),
           (''message'', JStr (ab_message b))]"

text \<open>
  What arrives as \<open>data\<close> when the executor posts \<open>{data: input}\<close>: \<open>JSON.stringify\<close>
  drops a property whose value is \<open>undefined\<close> or a function, and writes the object
  \<open>Object.prototype\<close> as \<open>{}\<close>.
\<close>

fun wire :: "js_value \<Rightarrow> json option" where
  "wire Undefined = None"
| "wire (Json v) = Some v"
| "wire (Inherited k) = (if k = ''__proto__'' then Some (JObj []) else None)"

text \<open>
  The analyzer as the executor's \<open>post\<close> sees it; the state of the environment is the
  state of the analyzer's patterns. A truthy \<open>data\<close> that is no string makes both this
  repository's sanitizer and the analyzer throw a \<open>TypeError\<close>, which the outer \<open>catch\<close>
  answers with status 500.
\<close>

definition analyze_endpoint :: "string \<Rightarrow> sanitizer \<Rightarrow> patterns \<Rightarrow> js_value
     \<Rightarrow> (string + json) \<times> patterns" where
  "analyze_endpoint sanitizer_url san ps inp =
     (case wire inp of
        None \<Rightarrow> (Inl ''Missing required field: data'', ps)
      | Some (JStr dat) \<Rightarrow>
          (case analyze sanitizer_url san ps (Some dat) of
             (Ok200 b, nested, ps') \<Rightarrow> (Inr (analyze_body_json b), ps')
           | (Error400 msg, nested, ps') \<Rightarrow> (Inl msg, ps')
           | (Error500 msg, nested, ps') \<Rightarrow> (Inl msg, ps'))
      | Some v \<Rightarrow>
          (if truthy v then (Inl ''sanitizedData.split is not a function'', ps)
           else (Inl ''Missing required field: data'', ps)))"

subsection \<open>The handler on any body\<close>

text \<open>
  The request type is erased when the program runs, and the orchestrator forwards a
  \<open>data\<close> of any shape. The handler rejects only a falsy \<open>data\<close>. On a truthy one it
  makes the nested call; when that call fails, \<open>sanitizedData\<close> stays the \<open>data\<close> itself,
  and for a \<open>data\<close> that is no string \<open>sanitizedData.split\<close> throws a \<open>TypeError\<close>,
  which the outer \<open>catch\<close> answers with status 500. The sanitizer is a function of the
  JSON it receives.
\<close>

type_synonym sanitizer_service = "json \<Rightarrow> string + sanitize_reply"

definition success_body ::
  "string \<Rightarrow> analysis \<Rightarrow> scan \<Rightarrow> (nat \<times> string) option \<Rightarrow> analyze_body" where
  "success_body sanitizer_url an sc sanitizationInfo =
     \<lparr>ab_success = True,
      ab_analysis = an,
      sanitization = sanitizationInfo,
      ab_agentToAgentCall =
        \<lparr>called = ''sanitizer'', a2a_url = sanitizer_url,
         a2a_success = (sanitizationInfo \<noteq> None)\<rparr>,
      summary =
        ''Analyzed '' @ string_of_nat (totalLines an) @ '' log lines: ''
          @ string_of_nat (criticalCount sc) @ '' critical, ''
          @ string_of_nat (errorCount sc) @ '' errors, ''
          @ string_of_nat (warningCount sc) @ '' warnings'',
      ab_message = ''Log analysis complete with sanitization''\<rparr>"

definition analyze_handler ::
  "string \<Rightarrow> sanitizer_service \<Rightarrow> patterns \<Rightarrow> json option
     \<Rightarrow> analyze_response \<times> (json \<times> (string + sanitize_reply)) list \<times> patterns" where
  "analyze_handler sanitizer_url san ps d =
     (case d of
        None \<Rightarrow> (Error400 ''Missing required field: data'', [], ps)
      | Some v \<Rightarrow>
          if \<not> truthy v then (Error400 ''Missing required field: data'', [], ps)
          else
            (let reply = san v;
                 sanitizedData = (case reply of Inl err \<Rightarrow> v | Inr r \<Rightarrow> JStr (sanitized r));
                 sanitizationInfo =
                   (case reply of Inl err \<Rightarrow> None | Inr r \<Rightarrow> Some (count r, sr_message r))
             in case sanitizedData of
                  JStr t \<Rightarrow>
                    (let (an, sc) = analyze_text ps t
                     in (Ok200 (success_body sanitizer_url an sc sanitizationInfo),
                         [(v, reply)], patterns_of sc))
                | _ \<Rightarrow>
                    (Error500 ''sanitizedData.split is not a function'', [(v, reply)], ps)))"

text \<open>What the executor's \<open>post\<close> gets from a response of the handler.\<close>

definition endpoint_answer ::
  "analyze_response \<times> 'a \<times> patterns \<Rightarrow> (string + json) \<times> patterns" where
  "endpoint_answer x =
     (case x of
        (Ok200 b, nested, ps') \<Rightarrow> (Inr (analyze_body_json b), ps')
      | (Error400 msg, nested, ps') \<Rightarrow> (Inl msg, ps')
      | (Error500 msg, nested, ps') \<Rightarrow> (Inl msg, ps'))"

text \<open>Environments for concrete runs: a sanitizer and agents that cannot be reached.\<close>

definition sanitizer_down :: sanitizer where
  "sanitizer_down dat = Inl ''connect ECONNREFUSED 127.0.0.1:5001''"

definition unreachable :: "unit post" where
  "unreachable w u inp = (Inl ''connect ECONNREFUSED'', w)"

definition analyzer_alone :: "patterns post" where
  "analyzer_alone ps u inp = analyze_endpoint ''http://localhost:5001'' sanitizer_down ps inp"

definition log_analyzer_info :: AgentInfo where
  "log_analyzer_info =
     \<lparr>name = ''log-analyzer'', url = ''http://localhost:5002'',
      tools = [\<lparr>tool_name = ''analyze'',
                description = ''Analyzes system logs for errors, warnings, and critical issues. Calls sanitizer agent internally.'',
                input = ''{ data: string }''\<rparr>]\<rparr>"

section \<open>Concrete scenarios\<close>

text \<open>Plans, descriptors, environments and inputs for the runs in the theorems below.\<close>

definition analysis_step :: PlanStep where
  "analysis_step =
     \<lparr>agent = ''log-analyzer'', task = ''analyze'', inputFrom = ''user'', dependsOn = None\<rparr>"

definition report_step :: PlanStep where
  "report_step =
     \<lparr>agent = ''report-generator'', task = ''generate'', inputFrom = ''log-analyzer'',
      dependsOn = Some ''log-analyzer''\<rparr>"

definition report_from_sanitizer :: PlanStep where
  "report_from_sanitizer =
     \<lparr>agent = ''report-generator'', task = ''generate'', inputFrom = ''sanitizer'',
      dependsOn = Some ''sanitizer''\<rparr>"

definition report_generator_info :: AgentInfo where
  "report_generator_info =
     \<lparr>name = ''report-generator'', url = ''http://localhost:5003'', tools = []\<rparr>"

definition analyzer_down :: "unit post" where
  "analyzer_down w u inp = (Inl ''connect ECONNREFUSED 127.0.0.1:5002'', w)"

definition sanitizer_v1 :: AgentInfo where
  "sanitizer_v1 = \<lparr>name = ''sanitizer'', url = ''http://localhost:5001'', tools = []\<rparr>"

definition sanitizer_v2 :: AgentInfo where
  "sanitizer_v2 = \<lparr>name = ''sanitizer'', url = ''http://localhost:6001'', tools = []\<rparr>"

definition two_line_log :: string where
  "two_line_log = ''FATAL: disk full\<newline>WARNING: request failed''"

definition analysis_request :: PlanAndRunRequest where
  "analysis_request =
     \<lparr>request = Some ''Analyze these logs for errors'', data = Some (JStr two_line_log)\<rparr>"

definition clean_log :: string where
  "clean_log = ''FATAL: disk full\<newline>WARNING: slow response\<newline>request served''"

definition sanitizer_unreachable :: sanitizer_service where
  "sanitizer_unreachable v = Inl ''connect ECONNREFUSED 127.0.0.1:5001''"

definition forwarded_object :: json where
  "forwarded_object = JObj [(''lines'', JArr [JStr ''FATAL: disk full''])]"

text \<open>The planner and executor invocations among the events of a request.\<close>

definition plan_events :: "event list \<Rightarrow> event list" where
  "plan_events evs = filter (\<lambda>e. case e of AgentCalled c \<Rightarrow> False | _ \<Rightarrow> True) evs"

text \<open>
  The count \<open>k\<close> of the analysis that the aggregated result of a completed request holds
  for the log analyzer.
\<close>

definition reported :: "string \<Rightarrow> response \<Rightarrow> json option" where
  "reported k resp =
     (case resp of
        Completed req plan r \<Rightarrow>
          (case er_results r ''log-analyzer'' of
             Some j \<Rightarrow> (case field ''analysis'' j of Some an \<Rightarrow> field k an | None \<Rightarrow> None)
           | None \<Rightarrow> None)
      | _ \<Rightarrow> None)"

section \<open>Properties of the planner and of the endpoint\<close>

lemma plan_for_analysis:
  "generatePlan ''Analyze these logs for errors'' = [analysis_step]"
  by code_simp

lemma plan_for_needs: "needsLogAnalyst ''Analyze these logs''"
  by code_simp

lemma empty_no_match:
  "\<not> needsLogAnalyst [] \<and> \<not> needsReport [] \<and> \<not> needsSanitizer []"
  by code_simp

lemma plan_events_calls [simp]: "plan_events (map AgentCalled cs) = []"
  by (induction cs) (auto simp: plan_events_def)

lemma plan_and_run_events:
  "fst (snd (plan_and_run agents post w \<lparr>request = Some req, data = d\<rparr>)) =
     (if req = [] then []
      else if generatePlan req = [] then [PlannerInvoked req]
      else [PlannerInvoked req, ExecutorInvoked (generatePlan req) (initial_payload req d)]
             @ map AgentCalled
                 (fst (snd (executePlan agents post w (generatePlan req)
                              (initial_payload req d)))))"
  by (simp add: plan_and_run_def Let_def split: prod.splits sum.splits)

text \<open>
  Claim C2. When the analysis and the report vocabulary both match the request, the plan
  is the \<open>log-analyzer\<close> step (task \<open>analyze\<close>, input from \<open>user\<close>) followed by the
  \<open>report-generator\<close> step that reads from and depends on \<open>log-analyzer\<close>. When the
  report vocabulary matches and the analysis vocabulary does not, the plan is the
  \<open>report-generator\<close> step alone, with input from \<open>user\<close> and no dependency.
\<close>

theorem planner_analysis_and_report:
  "(needsLogAnalyst req \<and> needsReport req \<longrightarrow>
      generatePlan req =
        [\<lparr>agent = ''log-analyzer'', task = ''analyze'', inputFrom = ''user'',
          dependsOn = None\<rparr>,
         \<lparr>agent = ''report-generator'', task = ''generate'',
          inputFrom = ''log-analyzer'', dependsOn = Some ''log-analyzer''\<rparr>])
   \<and> (needsReport req \<and> \<not> needsLogAnalyst req \<longrightarrow>
      generatePlan req =
        [\<lparr>agent = ''report-generator'', task = ''generate'', inputFrom = ''user'',
          dependsOn = None\<rparr>])"
  by (simp add: generatePlan_def Let_def)

theorem planner_analysis_and_report_witness:
  "needsLogAnalyst ''Analyze LOGS and write a Report''
   \<and> needsReport ''Analyze LOGS and write a Report''
   \<and> generatePlan ''Analyze LOGS and write a Report'' =
        [\<lparr>agent = ''log-analyzer'', task = ''analyze'', inputFrom = ''user'',
          dependsOn = None\<rparr>,
         \<lparr>agent = ''report-generator'', task = ''generate'',
          inputFrom = ''log-analyzer'', dependsOn = Some ''log-analyzer''\<rparr>]
   \<and> needsReport ''Create a report with visual''
   \<and> \<not> needsLogAnalyst ''Create a report with visual''
   \<and> generatePlan ''Create a report with visual'' =
        [\<lparr>agent = ''report-generator'', task = ''generate'', inputFrom = ''user'',
          dependsOn = None\<rparr>]"
proof -
  have a: "needsLogAnalyst ''Analyze LOGS and write a Report''
           \<and> needsReport ''Analyze LOGS and write a Report''"
    by code_simp
  have b: "needsReport ''Create a report with visual''
           \<and> \<not> needsLogAnalyst ''Create a report with visual''"
    by code_simp
  show ?thesis
    using a b planner_analysis_and_report [of "''Analyze LOGS and write a Report''"]
      planner_analysis_and_report [of "''Create a report with visual''"]
    by blast
qed

text \<open>
  Claim C4, amended. For a non-empty request that matches none of the three vocabularies
  the planner returns the empty plan, and \<open>/plan-and-run\<close> answers
  \<open>No agents matched the request\<close> with an empty plan and empty results; the planner is
  the only component invoked, and the environment is left as it was.
\<close>

theorem no_match_gives_empty_plan:
  assumes "req \<noteq> []" "\<not> needsLogAnalyst req" "\<not> needsReport req" "\<not> needsSanitizer req"
  shows "generatePlan req = []
         \<and> plan_and_run agents post w \<lparr>request = Some req, data = d\<rparr>
             = (NoAgentsMatched ''No agents matched the request'' [] Map.empty,
                [PlannerInvoked req], w)"
  using assms by (simp add: plan_and_run_def generatePlan_def Let_def)

theorem no_match_gives_empty_plan_witness:
  "''hello there'' \<noteq> [] \<and> \<not> needsLogAnalyst ''hello there''
   \<and> \<not> needsReport ''hello there'' \<and> \<not> needsSanitizer ''hello there''
   \<and> generatePlan ''hello there'' = []
   \<and> plan_and_run empty_registry unreachable () \<lparr>request = Some ''hello there'', data = None\<rparr>
       = (NoAgentsMatched ''No agents matched the request'' [] Map.empty,
          [PlannerInvoked ''hello there''], ())"
proof -
  have h: "\<not> needsLogAnalyst ''hello there'' \<and> \<not> needsReport ''hello there''
           \<and> \<not> needsSanitizer ''hello there''"
    by code_simp
  show ?thesis
    using h no_match_gives_empty_plan [of "''hello there''" empty_registry unreachable "()" None]
    by simp
qed

text \<open>
  Claim C4, counterexample. The claim as stated fails for the empty request: no vocabulary matches it and its plan
  is empty, but the endpoint rejects it as a missing field.
\<close>

theorem no_match_counterexample:
  "\<not> needsLogAnalyst [] \<and> \<not> needsReport [] \<and> \<not> needsSanitizer []
   \<and> generatePlan [] = []
   \<and> fst (plan_and_run empty_registry unreachable () \<lparr>request = Some [], data = None\<rparr>)
       = BadRequest ''Missing required field: request''"
  using empty_no_match by (simp add: generatePlan_def plan_and_run_def Let_def)

text \<open>
  Claim C10. A request whose \<open>request\<close> field is the empty string is answered with status
  400 and \<open>Missing required field: request\<close>, whatever the registry, the network and the
  \<open>data\<close> field; neither the planner nor the executor is invoked.
\<close>

theorem empty_request_rejected:
  "plan_and_run agents post w \<lparr>request = Some [], data = d\<rparr>
     = (BadRequest ''Missing required field: request'', [], w)"
  by (simp add: plan_and_run_def)

theorem empty_request_rejected_witness:
  "plan_and_run (register log_analyzer_info empty_registry) analyzer_alone fresh_patterns
     \<lparr>request = Some [], data = Some (JStr clean_log)\<rparr>
     = (BadRequest ''Missing required field: request'', [], fresh_patterns)"
  using empty_request_rejected [of "register log_analyzer_info empty_registry"
      analyzer_alone fresh_patterns "Some (JStr clean_log)"]
  by simp

section \<open>Properties of the registry\<close>

lemma set_update_cases:
  "(k', v') \<in> set (AList.update k v al) \<Longrightarrow> (k', v') = (k, v) \<or> (k', v') \<in> set al"
  by (induction al) (auto split: if_splits)

lemma registry_keys_distinct: "distinct (map fst (registry_after ops))"
  unfolding registry_after_def
proof (induction ops rule: rev_induct)
  case Nil
  show ?case by (simp add: empty_registry_def)
next
  case (snoc x xs)
  then show ?case
    by (cases x) (simp_all add: register_def clear_def distinct_update)
qed

lemma registry_keys_are_names: "(k, v) \<in> set (registry_after ops) \<Longrightarrow> name v = k"
  unfolding registry_after_def
proof (induction ops arbitrary: k v rule: rev_induct)
  case Nil
  then show ?case by (simp add: empty_registry_def)
next
  case (snoc x xs)
  show ?case
  proof (cases x)
    case (Register d)
    with snoc.prems
    have "(k, v) \<in> set (AList.update (name d) d (foldl apply_op empty_registry xs))"
      by (simp add: register_def)
    then have "(k, v) = (name d, d) \<or> (k, v) \<in> set (foldl apply_op empty_registry xs)"
      by (rule set_update_cases)
    then show ?thesis using snoc.IH by auto
  next
    case Clear
    with snoc.prems show ?thesis by (simp add: clear_def)
  qed
qed

lemma getAll_names: "map name (getAll (registry_after ops)) = map fst (registry_after ops)"
  using registry_keys_are_names [of _ _ ops] by (auto simp: getAll_def)

lemma single_entry:
  "distinct (map fst al) \<Longrightarrow> (\<forall>(k, v) \<in> set al. name v = k) \<Longrightarrow> map_of al n = Some d
     \<Longrightarrow> filter (\<lambda>a. name a = n) (map snd al) = [d]"
proof (induction al)
  case Nil
  then show ?case by simp
next
  case (Cons p al)
  obtain k v where p: "p = (k, v)" by (cases p)
  show ?case
  proof (cases "k = n")
    case True
    with Cons.prems p have v: "v = d" and nk: "n \<notin> fst ` set al" by auto
    have "\<forall>a \<in> set (map snd al). name a \<noteq> n"
    proof
      fix a assume "a \<in> set (map snd al)"
      then obtain k' where "(k', a) \<in> set al" by auto
      with Cons.prems(2) nk show "name a \<noteq> n" by force
    qed
    then have "filter (\<lambda>a. name a = n) (map snd al) = []"
      by (simp add: filter_empty_conv)
    with p True v Cons.prems(2) show ?thesis by simp
  next
    case False
    with Cons.prems p have "name v \<noteq> n" by auto
    moreover from Cons p False have "filter (\<lambda>a. name a = n) (map snd al) = [d]" by simp
    ultimately show ?thesis using p by simp
  qed
qed

text \<open>
  Claim C5. After any history of registrations, registering two descriptors of one name
  in a row leaves exactly one entry of that name, the second descriptor; \<open>getAll\<close> lists
  no name twice; and registering a descriptor twice gives the registry that registering
  it once gives.
\<close>

theorem register_last_write_wins:
  assumes "name d1 = name d2"
  shows "get (register d2 (register d1 (registry_after ops))) (name d2) = Some d2
    \<and> filter (\<lambda>a. name a = name d2) (getAll (register d2 (register d1 (registry_after ops))))
        = [d2]
    \<and> distinct (map name (getAll (register d2 (register d1 (registry_after ops)))))
    \<and> register d2 (register d2 (registry_after ops)) = register d2 (registry_after ops)"
proof -
  let ?r = "register d2 (register d1 (registry_after ops))"
  have r: "?r = registry_after (ops @ [Register d1, Register d2])"
    by (simp add: registry_after_def)
  have g: "get ?r (name d2) = Some d2"
    by (simp add: get_def register_def update_conv')
  have dist: "distinct (map fst ?r)"
    unfolding r by (rule registry_keys_distinct)
  have names: "\<forall>(k, v) \<in> set ?r. name v = k"
    unfolding r using registry_keys_are_names by blast
  have one: "filter (\<lambda>a. name a = name d2) (getAll ?r) = [d2]"
    unfolding getAll_def using dist names g [unfolded get_def] by (rule single_entry)
  have nodup: "distinct (map name (getAll ?r))"
    unfolding r getAll_names by (rule registry_keys_distinct)
  have idem: "register d2 (register d2 (registry_after ops)) = register d2 (registry_after ops)"
    by (simp add: register_def)
  from g one nodup idem show ?thesis by blast
qed

theorem register_last_write_wins_witness:
  "name sanitizer_v1 = name sanitizer_v2
   \<and> getAll (register sanitizer_v2 (register sanitizer_v1
        (registry_after [Register log_analyzer_info])))
      = [log_analyzer_info, sanitizer_v2]
   \<and> filter (\<lambda>a. name a = name sanitizer_v2)
        (getAll (register sanitizer_v2 (register sanitizer_v1
           (registry_after [Register log_analyzer_info]))))
      = [sanitizer_v2]"
proof -
  have h: "name sanitizer_v1 = name sanitizer_v2"
    by (simp add: sanitizer_v1_def sanitizer_v2_def)
  have l: "getAll (register sanitizer_v2 (register sanitizer_v1
        (registry_after [Register log_analyzer_info])))
      = [log_analyzer_info, sanitizer_v2]"
    by (simp add: getAll_def register_def registry_after_def empty_registry_def
        sanitizer_v1_def sanitizer_v2_def log_analyzer_info_def)
  from h l register_last_write_wins [OF h, of "[Register log_analyzer_info]"]
  show ?thesis by simp
qed

section \<open>Properties of the executor\<close>

lemma run_steps_append:
  "run_steps agents post init (xs @ ys) st =
     (case run_steps agents post init xs st of
        (Some e, st') \<Rightarrow> (Some e, st')
      | (None, st') \<Rightarrow> run_steps agents post init ys st')"
  by (induction xs arbitrary: st) (auto split: prod.splits option.splits)

lemma exec_step_unregistered:
  "get agents (agent s) = None
     \<Longrightarrow> exec_step agents post init s st = (Some (AgentNotFound (agent s)), st)"
  by (simp add: exec_step_def)

lemma run_steps_stops_at_unregistered:
  assumes "get agents (agent s) = None"
  shows "run_steps agents post init (pre @ s # rest) st =
     (case run_steps agents post init pre st of
        (Some e, st') \<Rightarrow> (Some e, st')
      | (None, st') \<Rightarrow> (Some (AgentNotFound (agent s)), st'))"
  by (simp add: run_steps_append exec_step_unregistered [OF assms] split: prod.splits option.splits)

lemma exec_step_calls:
  "exec_step agents post init s st = (r, st')
     \<Longrightarrow> (r \<noteq> None \<and> calls st' = calls st)
         \<or> (\<exists>c. calls st' = calls st @ [c] \<and> d_step c = s)"
  by (auto simp: exec_step_def Let_def split: option.splits if_splits prod.splits sum.splits)

lemma run_steps_calls:
  "run_steps agents post init plan st = (r, st')
     \<Longrightarrow> \<exists>k \<le> length plan. map d_step (calls st') = map d_step (calls st) @ take k plan"
proof (induction plan arbitrary: st)
  case Nil
  then show ?case by simp
next
  case (Cons s plan)
  obtain r1 st1 where e: "exec_step agents post init s st = (r1, st1)"
    by (cases "exec_step agents post init s st")
  show ?case
  proof (cases r1)
    case None
    with e Cons.prems have run: "run_steps agents post init plan st1 = (r, st')" by simp
    from exec_step_calls [OF e] None obtain c
      where c: "calls st1 = calls st @ [c]" "d_step c = s" by auto
    from Cons.IH [OF run] obtain k where k: "k \<le> length plan"
      "map d_step (calls st') = map d_step (calls st1) @ take k plan" by blast
    with c have "Suc k \<le> length (s # plan)"
      "map d_step (calls st') = map d_step (calls st) @ take (Suc k) (s # plan)" by simp_all
    then show ?thesis by blast
  next
    case (Some err)
    with e Cons.prems have st': "st' = st1" by simp
    from exec_step_calls [OF e] show ?thesis
    proof
      assume "r1 \<noteq> None \<and> calls st1 = calls st"
      then have "map d_step (calls st') = map d_step (calls st) @ take 0 (s # plan)"
        using st' by simp
      then show ?thesis by blast
    next
      assume "\<exists>c. calls st1 = calls st @ [c] \<and> d_step c = s"
      then have "map d_step (calls st') = map d_step (calls st) @ take (Suc 0) (s # plan)"
        using st' by auto
      moreover have "Suc 0 \<le> length (s # plan)" by simp
      ultimately show ?thesis by blast
    qed
  qed
qed

lemma executePlan_calls:
  "\<exists>k \<le> length plan. map d_step (fst (snd (executePlan agents post w plan init))) = take k plan"
proof -
  obtain r st where run: "run_steps agents post init plan (initial_state w) = (r, st)"
    by (cases "run_steps agents post init plan (initial_state w)")
  from run_steps_calls [OF run] obtain k where "k \<le> length plan"
    "map d_step (calls st) = take k plan" by (auto simp: initial_state_def)
  moreover have "fst (snd (executePlan agents post w plan init)) = calls st"
    using run by (simp add: executePlan_def split: option.splits)
  ultimately show ?thesis by auto
qed

lemma exec_step_user_input:
  assumes "exec_step agents post init s st = (r, st')"
    and "\<forall>c \<in> set (calls st). inputFrom (d_step c) = ''user'' \<longrightarrow> d_input c = Json init"
  shows "\<forall>c \<in> set (calls st'). inputFrom (d_step c) = ''user'' \<longrightarrow> d_input c = Json init"
  using assms
  by (auto simp: exec_step_def Let_def split: option.splits if_splits prod.splits sum.splits)

lemma run_steps_user_input:
  "run_steps agents post init plan st = (r, st')
     \<Longrightarrow> \<forall>c \<in> set (calls st). inputFrom (d_step c) = ''user'' \<longrightarrow> d_input c = Json init
     \<Longrightarrow> \<forall>c \<in> set (calls st'). inputFrom (d_step c) = ''user'' \<longrightarrow> d_input c = Json init"
proof (induction plan arbitrary: st)
  case Nil
  then show ?case by simp
next
  case (Cons s plan)
  obtain r1 st1 where e: "exec_step agents post init s st = (r1, st1)"
    by (cases "exec_step agents post init s st")
  note inv = exec_step_user_input [OF e Cons.prems(2)]
  show ?case
  proof (cases r1)
    case None
    with e Cons.prems(1) have "run_steps agents post init plan st1 = (r, st')" by simp
    from Cons.IH [OF this inv] show ?thesis .
  next
    case (Some err)
    with e Cons.prems(1) have "st' = st1" by simp
    with inv show ?thesis by simp
  qed
qed

lemma executePlan_user_input:
  "\<forall>c \<in> set (fst (snd (executePlan agents post w plan init))).
     inputFrom (d_step c) = ''user'' \<longrightarrow> d_input c = Json init"
proof -
  obtain r st where run: "run_steps agents post init plan (initial_state w) = (r, st)"
    by (cases "run_steps agents post init plan (initial_state w)")
  have "\<forall>c \<in> set (calls (initial_state w)).
          inputFrom (d_step c) = ''user'' \<longrightarrow> d_input c = Json init"
    by (simp add: initial_state_def)
  from run_steps_user_input [OF run this]
  show ?thesis using run by (simp add: executePlan_def split: option.splits)
qed

text \<open>
  The plan of the analysis step alone completes whenever the analyzer is registered and
  reachable at its registered location and the text is not empty.
\<close>

lemma analyze_answers_text:
  assumes "dat \<noteq> []"
  shows "\<exists>b nested ps'. analyze sanitizer_url san ps (Some dat) = (Ok200 b, nested, ps')
           \<and> ab_analysis b
               = fst (analyze_text ps (case san dat of Inl e \<Rightarrow> dat | Inr r \<Rightarrow> sanitized r))
           \<and> summary b \<noteq> []"
  using assms by (simp add: analyze_def Let_def split: prod.splits)

lemma analysis_step_completes:
  assumes "get agents ''log-analyzer'' = Some a"
    and "\<forall>ps inp. post ps (url a @ ''/analyze'') inp = analyze_endpoint sanitizer_url san ps inp"
    and "dat \<noteq> []"
  shows "\<exists>b ps'.
           ab_analysis b
             = fst (analyze_text ps (case san dat of Inl e \<Rightarrow> dat | Inr r \<Rightarrow> sanitized r))
           \<and> executePlan agents post ps [analysis_step] (JStr dat)
               = (Inr \<lparr>success = True,
                       er_results = [''log-analyzer'' \<mapsto> analyze_body_json b],
                       er_executionTrace = [(''log-analyzer'', JStr (summary b))]\<rparr>,
                  [\<lparr>d_step = analysis_step, d_url = url a @ ''/analyze'',
                    d_input = Json (JStr dat)\<rparr>],
                  ps')"
proof -
  from analyze_answers_text [OF assms(3), of sanitizer_url san ps]
  obtain b nested ps' where b: "analyze sanitizer_url san ps (Some dat) = (Ok200 b, nested, ps')"
    "ab_analysis b
       = fst (analyze_text ps (case san dat of Inl e \<Rightarrow> dat | Inr r \<Rightarrow> sanitized r))"
    "summary b \<noteq> []"
    by blast
  have ep: "post ps (url a @ ''/analyze'') (Json (JStr dat)) = (Inr (analyze_body_json b), ps')"
    using assms(2) b(1) by (simp add: analyze_endpoint_def)
  have tv: "trace_value (analyze_body_json b) = Inr (JStr (summary b))"
    using b(3) by (simp add: trace_value_def analyze_body_json_def or_else_def)
  have "exec_step agents post (JStr dat) analysis_step (initial_state ps) =
     (None, \<lparr>results = [''log-analyzer'' \<mapsto> analyze_body_json b],
             executionTrace = [(''log-analyzer'', JStr (summary b))],
             calls = [\<lparr>d_step = analysis_step, d_url = url a @ ''/analyze'',
                       d_input = Json (JStr dat)\<rparr>],
             world = ps'\<rparr>)"
    using assms(1) ep tv
    by (simp add: exec_step_def analysis_step_def getEndpointForTask_def endpointMap_def
        initial_state_def results_set_def)
  then have "executePlan agents post ps [analysis_step] (JStr dat)
               = (Inr \<lparr>success = True,
                       er_results = [''log-analyzer'' \<mapsto> analyze_body_json b],
                       er_executionTrace = [(''log-analyzer'', JStr (summary b))]\<rparr>,
                  [\<lparr>d_step = analysis_step, d_url = url a @ ''/analyze'',
                    d_input = Json (JStr dat)\<rparr>],
                  ps')"
    by (simp add: executePlan_def)
  with b(2) show ?thesis by blast
qed

text \<open>
  Claim C6, amended. If the target agent of a step is absent from the registry, then
  \<open>executePlan\<close> fails, and the calls it dispatches and the environment it leaves are
  those of executing the steps before that step alone: no call is dispatched for the
  step or for a later one. When the steps before it all complete, the error is
  \<open>Agent X not found in registry\<close> for the missing agent \<open>X\<close>; when one of them fails,
  the error is that step's.
\<close>

theorem unregistered_agent_aborts_plan:
  assumes "get agents (agent s) = None"
  shows "(\<exists>e. fst (executePlan agents post w (pre @ s # rest) init) = Inl e)
    \<and> ((\<exists>r. fst (executePlan agents post w pre init) = Inr r) \<longrightarrow>
         fst (executePlan agents post w (pre @ s # rest) init) = Inl (AgentNotFound (agent s)))
    \<and> (\<forall>e. fst (executePlan agents post w pre init) = Inl e \<longrightarrow>
         fst (executePlan agents post w (pre @ s # rest) init) = Inl e)
    \<and> snd (executePlan agents post w (pre @ s # rest) init)
        = snd (executePlan agents post w pre init)
    \<and> (\<exists>k \<le> length pre.
         map d_step (fst (snd (executePlan agents post w (pre @ s # rest) init))) = take k pre)
    \<and> error_message (AgentNotFound (agent s)) = ''Agent '' @ agent s @ '' not found in registry''"
proof -
  obtain r st where run: "run_steps agents post init pre (initial_state w) = (r, st)"
    by (cases "run_steps agents post init pre (initial_state w)")
  have a: "snd (executePlan agents post w (pre @ s # rest) init)
        = snd (executePlan agents post w pre init)"
    using run by (simp add: executePlan_def run_steps_stops_at_unregistered [OF assms]
        split: option.splits)
  have b: "fst (executePlan agents post w (pre @ s # rest) init) =
     (case r of Some e \<Rightarrow> Inl e | None \<Rightarrow> Inl (AgentNotFound (agent s)))"
    using run by (simp add: executePlan_def run_steps_stops_at_unregistered [OF assms]
        split: option.splits)
  have c: "fst (executePlan agents post w pre init) =
     (case r of Some e \<Rightarrow> Inl e
      | None \<Rightarrow> Inr \<lparr>success = True, er_results = results st,
                      er_executionTrace = executionTrace st\<rparr>)"
    using run by (simp add: executePlan_def split: option.splits)
  from executePlan_calls [of pre agents post w init] a
  have d: "\<exists>k \<le> length pre.
         map d_step (fst (snd (executePlan agents post w (pre @ s # rest) init))) = take k pre"
    by simp
  from a b c d show ?thesis by (cases r) auto
qed

theorem unregistered_agent_aborts_plan_witness:
  "get (register log_analyzer_info empty_registry) (agent report_step) = None
   \<and> fst (executePlan (register log_analyzer_info empty_registry) analyzer_alone
            fresh_patterns ([analysis_step] @ report_step # []) (JStr ''FATAL: disk full''))
       = Inl (AgentNotFound ''report-generator'')
   \<and> fst (executePlan (register log_analyzer_info empty_registry) analyzer_down ()
            ([analysis_step] @ report_step # []) (JStr ''FATAL: disk full''))
       = Inl (ExecutionFailed ''log-analyzer'' ''connect ECONNREFUSED 127.0.0.1:5002'')"
proof -
  have h: "get (register log_analyzer_info empty_registry) (agent report_step) = None"
    by (simp add: get_def register_def empty_registry_def log_analyzer_info_def
        report_step_def)
  have "\<not> isl (fst (executePlan (register log_analyzer_info empty_registry) analyzer_alone
            fresh_patterns [analysis_step] (JStr ''FATAL: disk full'')))"
    by code_simp
  then have ok: "\<exists>r. fst (executePlan (register log_analyzer_info empty_registry)
            analyzer_alone fresh_patterns [analysis_step] (JStr ''FATAL: disk full'')) = Inr r"
    by (cases "fst (executePlan (register log_analyzer_info empty_registry)
            analyzer_alone fresh_patterns [analysis_step] (JStr ''FATAL: disk full''))") auto
  have down: "fst (executePlan (register log_analyzer_info empty_registry) analyzer_down ()
            [analysis_step] (JStr ''FATAL: disk full''))
       = Inl (ExecutionFailed ''log-analyzer'' ''connect ECONNREFUSED 127.0.0.1:5002'')"
    by (simp add: executePlan_def exec_step_def get_def register_def empty_registry_def
        log_analyzer_info_def analysis_step_def analyzer_down_def initial_state_def
        getEndpointForTask_def endpointMap_def)
  have n: "agent report_step = ''report-generator''"
    by (simp add: report_step_def)
  from unregistered_agent_aborts_plan [OF h, of analyzer_alone fresh_patterns
      "[analysis_step]" "[]" "JStr ''FATAL: disk full''"]
    unregistered_agent_aborts_plan [OF h, of analyzer_down "()"
      "[analysis_step]" "[]" "JStr ''FATAL: disk full''"]
    ok down h n
  show ?thesis by simp
qed

text \<open>
  Claim C6, counterexample. The claim as stated fails when an earlier step fails first: the analyzer is registered
  but down, the report generator is not registered, and the error names the analyzer.
\<close>

theorem unregistered_agent_counterexample:
  "get (register log_analyzer_info empty_registry) (agent report_step) = None
   \<and> fst (executePlan (register log_analyzer_info empty_registry) analyzer_down ()
            [analysis_step, report_step] (JStr ''FATAL: disk full''))
       = Inl (ExecutionFailed ''log-analyzer'' ''connect ECONNREFUSED 127.0.0.1:5002'')
   \<and> ExecutionFailed ''log-analyzer'' ''connect ECONNREFUSED 127.0.0.1:5002''
       \<noteq> AgentNotFound (agent report_step)"
  by (simp add: executePlan_def exec_step_def get_def register_def empty_registry_def
      log_analyzer_info_def analysis_step_def report_step_def analyzer_down_def
      initial_state_def getEndpointForTask_def endpointMap_def)

text \<open>
  Claim C7, amended. Let the steps before a step complete, none of them for an agent
  named \<open>__proto__\<close>. If the step's target agent is registered, its input source is not
  \<open>user\<close>, \<open>results\<close> holds no entry for the source and the source is not the name of a
  member of \<open>Object.prototype\<close>, then \<open>executePlan\<close> fails with
  \<open>Dependency not met: S has no results\<close> for the source \<open>S\<close>, and dispatches no call
  for the step or for a later one.
\<close>

theorem missing_dependency_fails_fast:
  assumes "executePlan agents post w pre init = (Inr r, cs, w')"
    and "\<forall>p \<in> set pre. agent p \<noteq> ''__proto__''"
    and "get agents (agent s) = Some a"
    and "inputFrom s \<noteq> ''user''"
    and "er_results r (inputFrom s) = None"
    and "inputFrom s \<notin> set object_prototype_members"
  shows "executePlan agents post w (pre @ s # rest) init
           = (Inl (DependencyNotMet (inputFrom s)), cs, w')
    \<and> error_message (DependencyNotMet (inputFrom s))
        = ''Dependency not met: '' @ inputFrom s @ '' has no results''"
proof -
  obtain x st where run: "run_steps agents post init pre (initial_state w) = (x, st)"
    by (cases "run_steps agents post init pre (initial_state w)")
  with assms(1) have x: "x = None" and st: "results st = er_results r" "calls st = cs"
      "world st = w'"
    by (auto simp: executePlan_def split: option.splits)
  have "results_get (results st) (inputFrom s) = Undefined"
    using assms(5,6) st by (simp add: results_get_def inherited_def)
  then have "exec_step agents post init s st = (Some (DependencyNotMet (inputFrom s)), st)"
    using assms(3,4) by (simp add: exec_step_def)
  then have "run_steps agents post init (pre @ s # rest) (initial_state w)
               = (Some (DependencyNotMet (inputFrom s)), st)"
    using run x by (simp add: run_steps_append)
  then show ?thesis using st by (simp add: executePlan_def)
qed

theorem missing_dependency_fails_fast_witness:
  "get (register report_generator_info (register log_analyzer_info empty_registry))
       (agent report_from_sanitizer) = Some report_generator_info
   \<and> inputFrom report_from_sanitizer \<noteq> ''user''
   \<and> inputFrom report_from_sanitizer \<notin> set object_prototype_members
   \<and> fst (executePlan (register report_generator_info
                         (register log_analyzer_info empty_registry))
            analyzer_alone fresh_patterns ([analysis_step] @ report_from_sanitizer # [])
            (JStr ''FATAL: disk full''))
       = Inl (DependencyNotMet ''sanitizer'')
   \<and> map d_step
        (fst (snd (executePlan (register report_generator_info
                                  (register log_analyzer_info empty_registry))
                     analyzer_alone fresh_patterns
                     ([analysis_step] @ report_from_sanitizer # [])
                     (JStr ''FATAL: disk full''))))
       = [analysis_step]"
proof -
  let ?agents = "register report_generator_info (register log_analyzer_info empty_registry)"
  have la: "get ?agents ''log-analyzer'' = Some log_analyzer_info"
    by (simp add: get_def register_def empty_registry_def log_analyzer_info_def
        report_generator_info_def)
  have served: "\<forall>ps inp. analyzer_alone ps (url log_analyzer_info @ ''/analyze'') inp
             = analyze_endpoint ''http://localhost:5001'' sanitizer_down ps inp"
    by (simp add: analyzer_alone_def)
  have nonempty: "''FATAL: disk full'' \<noteq> []"
    by simp
  from analysis_step_completes
         [where post = analyzer_alone and san = sanitizer_down
            and sanitizer_url = "''http://localhost:5001''" and ps = fresh_patterns,
          OF la served nonempty]
  obtain b ps' where pre:
    "executePlan ?agents analyzer_alone fresh_patterns [analysis_step] (JStr ''FATAL: disk full'')
       = (Inr \<lparr>success = True,
               er_results = [''log-analyzer'' \<mapsto> analyze_body_json b],
               er_executionTrace = [(''log-analyzer'', JStr (summary b))]\<rparr>,
          [\<lparr>d_step = analysis_step, d_url = url log_analyzer_info @ ''/analyze'',
            d_input = Json (JStr ''FATAL: disk full'')\<rparr>],
          ps')"
    by blast
  have names: "\<forall>p \<in> set [analysis_step]. agent p \<noteq> ''__proto__''"
    by (simp add: analysis_step_def)
  have rg: "get ?agents (agent report_from_sanitizer) = Some report_generator_info"
    by (simp add: get_def register_def empty_registry_def log_analyzer_info_def
        report_generator_info_def report_from_sanitizer_def)
  have src: "inputFrom report_from_sanitizer \<noteq> ''user''"
    by (simp add: report_from_sanitizer_def)
  have absent: "er_results \<lparr>success = True,
               er_results = [''log-analyzer'' \<mapsto> analyze_body_json b],
               er_executionTrace = [(''log-analyzer'', JStr (summary b))]\<rparr>
             (inputFrom report_from_sanitizer) = None"
    by (simp add: report_from_sanitizer_def)
  have plain: "inputFrom report_from_sanitizer \<notin> set object_prototype_members"
    by (simp add: report_from_sanitizer_def object_prototype_members_def)
  have s: "inputFrom report_from_sanitizer = ''sanitizer''"
    by (simp add: report_from_sanitizer_def)
  from missing_dependency_fails_fast [OF pre names rg src absent plain, of "[]"] rg src plain s
  show ?thesis by simp
qed

text \<open>
  Claim C7, counterexample. The claim as stated fails when the step's own agent is not
  registered: the registry is
  consulted first, and the error is the one of the unknown agent.
\<close>

theorem missing_dependency_counterexample:
  "inputFrom report_step \<noteq> ''user''
   \<and> results (initial_state ()) (inputFrom report_step) = None
   \<and> fst (executePlan empty_registry unreachable () [report_step] (JStr ''FATAL: disk full''))
       = Inl (AgentNotFound ''report-generator'')
   \<and> AgentNotFound ''report-generator'' \<noteq> DependencyNotMet (inputFrom report_step)"
  by (simp add: executePlan_def exec_step_def get_def empty_registry_def report_step_def
      initial_state_def)

text \<open>
  Claim C9. When the body of a \<open>/plan-and-run\<close> request has no \<open>data\<close> or a falsy one,
  the executor is invoked with the request string as initial payload, and every call
  dispatched for a step whose input source is \<open>user\<close> carries the request string.
\<close>

theorem missing_data_defaults_to_request:
  assumes "d = None \<or> (\<exists>v. d = Some v \<and> \<not> truthy v)"
  shows "(\<forall>pl p. ExecutorInvoked pl p
                  \<in> set (fst (snd (plan_and_run agents post w \<lparr>request = Some req, data = d\<rparr>)))
            \<longrightarrow> p = JStr req)
    \<and> (\<forall>c. AgentCalled c
                  \<in> set (fst (snd (plan_and_run agents post w \<lparr>request = Some req, data = d\<rparr>)))
            \<longrightarrow> inputFrom (d_step c) = ''user'' \<longrightarrow> d_input c = Json (JStr req))
    \<and> (req \<noteq> [] \<and> generatePlan req \<noteq> [] \<longrightarrow>
         ExecutorInvoked (generatePlan req) (JStr req)
           \<in> set (fst (snd (plan_and_run agents post w \<lparr>request = Some req, data = d\<rparr>))))"
proof -
  from assms have p: "initial_payload req d = JStr req"
    by (auto simp: initial_payload_def or_else_def)
  show ?thesis
    using executePlan_user_input [of agents post w "generatePlan req" "JStr req"]
    by (auto simp: plan_and_run_events p)
qed

theorem missing_data_defaults_to_request_witness:
  "fst (snd (plan_and_run (register log_analyzer_info empty_registry) analyzer_down ()
               \<lparr>request = Some ''Analyze these logs'', data = None\<rparr>))
     = [PlannerInvoked ''Analyze these logs'',
        ExecutorInvoked [analysis_step] (JStr ''Analyze these logs''),
        AgentCalled \<lparr>d_step = analysis_step, d_url = ''http://localhost:5002/analyze'',
                     d_input = Json (JStr ''Analyze these logs'')\<rparr>]
   \<and> ExecutorInvoked (generatePlan ''Analyze these logs'') (JStr ''Analyze these logs'')
       \<in> set (fst (snd (plan_and_run (register log_analyzer_info empty_registry)
                          analyzer_down ()
                          \<lparr>request = Some ''Analyze these logs'', data = None\<rparr>)))"
proof -
  have h: "(None :: json option) = None \<or> (\<exists>v. (None :: json option) = Some v \<and> \<not> truthy v)"
    by simp
  have g: "generatePlan ''Analyze these logs'' = [analysis_step]"
    by code_simp
  have e: "fst (snd (plan_and_run (register log_analyzer_info empty_registry) analyzer_down ()
                 \<lparr>request = Some ''Analyze these logs'', data = None\<rparr>))
       = [PlannerInvoked ''Analyze these logs'',
          ExecutorInvoked [analysis_step] (JStr ''Analyze these logs''),
          AgentCalled \<lparr>d_step = analysis_step, d_url = ''http://localhost:5002/analyze'',
                       d_input = Json (JStr ''Analyze these logs'')\<rparr>]"
    by (simp add: plan_and_run_events g initial_payload_def or_else_def executePlan_def
        exec_step_def get_def register_def empty_registry_def log_analyzer_info_def
        analysis_step_def analyzer_down_def initial_state_def getEndpointForTask_def
        endpointMap_def)
  from missing_data_defaults_to_request [OF h, of "register log_analyzer_info empty_registry"
      analyzer_down "()" "''Analyze these logs''"] g e
  show ?thesis by simp
qed

section \<open>Properties of the planner in the process\<close>

lemma RegExp_test_literal:
  "RegExp_test (regex_literal r) s = (rx_test r s, regex_literal r)"
  by (simp add: RegExp_test_def regex_literal_def)

text \<open>
  An object with the \<open>g\<close> flag answers differently to two tests of one string; this is
  what the patterns of the planner, without that flag, exclude.
\<close>

lemma g_flag_test_is_stateful:
  "RegExp_test \<lparr>source = warning_rx, global = True, lastIndex = 0\<rparr> ''WARN''
     = (True, \<lparr>source = warning_rx, global = True, lastIndex = 4\<rparr>)
   \<and> RegExp_test \<lparr>source = warning_rx, global = True, lastIndex = 4\<rparr> ''WARN''
     = (False, \<lparr>source = warning_rx, global = True, lastIndex = 0\<rparr>)"
  by code_simp

lemma Planner_generatePlan_plan:
  "Planner_generatePlan agents req = (generatePlan req, agents)"
  by (simp add: Planner_generatePlan_def generatePlan_def RegExp_test_literal Let_def
      needsSanitizer_def needsLogAnalyst_def needsReport_def)

lemma plan_starts_with_analysis:
  "needsLogAnalyst req \<Longrightarrow> \<exists>rest. generatePlan req = analysis_step # rest"
  by (simp add: generatePlan_def analysis_step_def Let_def)

lemma unregistered_analyzer_is_planned:
  assumes "req \<noteq> []" "needsLogAnalyst req" "get agents ''log-analyzer'' = None"
  shows "plan_and_run agents post w \<lparr>request = Some req, data = d\<rparr>
           = (ServerError ''Agent log-analyzer not found in registry'',
              [PlannerInvoked req, ExecutorInvoked (generatePlan req) (initial_payload req d)],
              w)"
proof -
  from plan_starts_with_analysis [OF assms(2)]
  obtain rest where plan: "generatePlan req = analysis_step # rest" by blast
  have "get agents (agent analysis_step) = None"
    using assms(3) by (simp add: analysis_step_def)
  from exec_step_unregistered [OF this, of post "initial_payload req d" "initial_state w"]
  have "exec_step agents post (initial_payload req d) analysis_step (initial_state w)
          = (Some (AgentNotFound ''log-analyzer''), initial_state w)"
    by (simp add: analysis_step_def)
  then have "executePlan agents post w (analysis_step # rest) (initial_payload req d)
          = (Inl (AgentNotFound ''log-analyzer''), [], w)"
    by (simp add: executePlan_def initial_state_def)
  then show ?thesis
    using assms(1) plan by (simp add: plan_and_run_def)
qed

text \<open>
  Claim C8. \<open>generatePlan\<close>, run in the orchestrator process, reads nothing of the
  registry and leaves it as it is: its plan is the same for any two registries, and a
  second invocation on the same request gives the plan of the first, whatever is
  registered or cleared in between. The same holds at the endpoint: whatever the
  registered agents, the network and its state, a request body leads to the same planner
  invocation and hands the same plan, with the same payload, to the executor. A request
  of the analysis vocabulary is planned for \<open>log-analyzer\<close> also when that agent is not
  registered; the missing agent shows when the plan is executed.
\<close>

theorem planner_deterministic_and_independent:
  "fst (Planner_generatePlan agents req) = fst (Planner_generatePlan others req)
   \<and> snd (Planner_generatePlan agents req) = agents
   \<and> fst (Planner_generatePlan
             (foldl apply_op (snd (Planner_generatePlan agents req)) ops) req)
       = fst (Planner_generatePlan agents req)
   \<and> fst (Planner_generatePlan agents req) = generatePlan req
   \<and> plan_events (fst (snd (plan_and_run agents post w body)))
       = plan_events (fst (snd (plan_and_run others post' w' body)))
   \<and> (req \<noteq> [] \<and> needsLogAnalyst req \<and> get agents ''log-analyzer'' = None \<longrightarrow>
        plan_and_run agents post w \<lparr>request = Some req, data = d\<rparr>
          = (ServerError ''Agent log-analyzer not found in registry'',
             [PlannerInvoked req,
              ExecutorInvoked (generatePlan req) (initial_payload req d)], w))"
proof -
  have "plan_events (fst (snd (plan_and_run agents post w body)))
       = plan_events (fst (snd (plan_and_run others post' w' body)))"
    by (auto simp: plan_and_run_def Let_def plan_events_def
        split: option.splits prod.splits sum.splits)
  then show ?thesis
    using unregistered_analyzer_is_planned [of req agents post w d]
    by (simp add: Planner_generatePlan_plan)
qed

theorem planner_deterministic_and_independent_witness:
  "Planner_generatePlan empty_registry ''Analyze these logs''
     = ([analysis_step], empty_registry)
   \<and> Planner_generatePlan (register log_analyzer_info empty_registry) ''Analyze these logs''
     = ([analysis_step], register log_analyzer_info empty_registry)
   \<and> fst (Planner_generatePlan
             (foldl apply_op (snd (Planner_generatePlan empty_registry ''Analyze these logs''))
                [Register log_analyzer_info, Clear, Register report_generator_info])
             ''Analyze these logs'')
     = [analysis_step]
   \<and> plan_events (fst (snd (plan_and_run (register log_analyzer_info empty_registry)
                               analyzer_alone fresh_patterns
                               \<lparr>request = Some ''Analyze these logs'', data = None\<rparr>)))
     = [PlannerInvoked ''Analyze these logs'',
        ExecutorInvoked [analysis_step] (JStr ''Analyze these logs'')]
   \<and> plan_and_run empty_registry unreachable ()
        \<lparr>request = Some ''Analyze these logs'', data = None\<rparr>
     = (ServerError ''Agent log-analyzer not found in registry'',
        [PlannerInvoked ''Analyze these logs'',
         ExecutorInvoked [analysis_step] (JStr ''Analyze these logs'')], ())"
proof -
  let ?R = "''Analyze these logs''"
  let ?B = "\<lparr>request = Some ''Analyze these logs'', data = None\<rparr>"
  let ?L = "register log_analyzer_info empty_registry"
  have g: "generatePlan ?R = [analysis_step]"
    by code_simp
  have n: "?R \<noteq> [] \<and> needsLogAnalyst ?R \<and> get empty_registry ''log-analyzer'' = None"
    using plan_for_needs by (simp add: get_def empty_registry_def)
  have p: "initial_payload ?R None = JStr ?R"
    by (simp add: initial_payload_def or_else_def)
  note t = planner_deterministic_and_independent
             [where req = ?R and agents = empty_registry and others = ?L
                and ops = "[Register log_analyzer_info, Clear, Register report_generator_info]"
                and post = unreachable and w = "()" and d = None
                and post' = analyzer_alone and w' = fresh_patterns and body = ?B]
  from t have same: "fst (Planner_generatePlan empty_registry ?R)
                       = fst (Planner_generatePlan ?L ?R)"
    by blast
  from t have plan: "fst (Planner_generatePlan empty_registry ?R) = generatePlan ?R"
    by blast
  from t have kept: "snd (Planner_generatePlan empty_registry ?R) = empty_registry"
    by blast
  from t have again: "fst (Planner_generatePlan
             (foldl apply_op (snd (Planner_generatePlan empty_registry ?R))
                [Register log_analyzer_info, Clear, Register report_generator_info]) ?R)
       = fst (Planner_generatePlan empty_registry ?R)"
    by blast
  from t have events: "plan_events (fst (snd (plan_and_run empty_registry unreachable () ?B)))
       = plan_events (fst (snd (plan_and_run ?L analyzer_alone fresh_patterns ?B)))"
    by blast
  from t n have failed: "plan_and_run empty_registry unreachable () ?B
       = (ServerError ''Agent log-analyzer not found in registry'',
          [PlannerInvoked ?R, ExecutorInvoked (generatePlan ?R) (initial_payload ?R None)], ())"
    by blast
  have kept': "snd (Planner_generatePlan ?L ?R) = ?L"
    using planner_deterministic_and_independent
            [where req = ?R and agents = ?L and others = ?L and ops = "[]"
               and post = unreachable and w = "()" and post' = unreachable and w' = "()"
               and body = ?B and d = None]
    by blast
  have one: "Planner_generatePlan empty_registry ?R = ([analysis_step], empty_registry)"
    using plan kept g by (simp add: prod_eq_iff)
  have two: "Planner_generatePlan ?L ?R = ([analysis_step], ?L)"
    using same plan kept' g by (simp add: prod_eq_iff)
  have three: "fst (Planner_generatePlan
             (foldl apply_op (snd (Planner_generatePlan empty_registry ?R))
                [Register log_analyzer_info, Clear, Register report_generator_info]) ?R)
       = [analysis_step]"
    using again plan g by simp
  have four: "plan_events (fst (snd (plan_and_run ?L analyzer_alone fresh_patterns ?B)))
     = [PlannerInvoked ?R, ExecutorInvoked [analysis_step] (JStr ?R)]"
    using events failed g p by (simp add: plan_events_def)
  have five: "plan_and_run empty_registry unreachable () ?B
     = (ServerError ''Agent log-analyzer not found in registry'',
        [PlannerInvoked ?R, ExecutorInvoked [analysis_step] (JStr ?R)], ())"
    using failed g p by simp
  from one two three four five show ?thesis
    by blast
qed

section \<open>Properties of the log analyzer\<close>

lemma find_SomeD: "find P xs = Some x \<Longrightarrow> P x \<and> x \<in> set xs"
  by (induction xs) (auto split: if_splits)

lemma rx_search_from_0:
  assumes "rx_search r s from = Some k"
  shows "rx_search r s 0 \<noteq> None"
proof -
  from assms have "find (match_at r s) [from ..< Suc (length s)] = Some k"
    by (simp only: rx_search_def)
  from find_SomeD [OF this]
  have "match_at r s k" and "k \<in> set [from ..< Suc (length s)]" by blast+
  then have "k \<in> set [0 ..< Suc (length s)]"
    by (simp del: upt_Suc)
  with \<open>match_at r s k\<close> have "\<exists>x. x \<in> set [0 ..< Suc (length s)] \<and> match_at r s x"
    by blast
  then have "find (match_at r s) [0 ..< Suc (length s)] \<noteq> None"
    by (simp only: find_None_iff not_not)
  then show ?thesis unfolding rx_search_def .
qed

lemma global_test_implies_match:
  "fst (rx_test_global r li s) \<Longrightarrow> rx_test r s"
  by (auto simp: rx_test_global_def rx_test_def split: if_splits option.splits
      dest: rx_search_from_0)

lemma global_test_from_0:
  "rx_test r s \<Longrightarrow> fst (rx_test_global r 0 s)"
  by (auto simp: rx_test_global_def rx_test_def split: option.splits)

lemma global_test_failure_resets:
  "\<not> fst (rx_test_global r li s) \<Longrightarrow> snd (rx_test_global r li s) = 0"
  by (auto simp: rx_test_global_def split: if_splits option.splits)

lemma scan_line_critical:
  "criticalCount (scan_line sc p) =
     criticalCount sc
       + (if fst (rx_test_global critical_rx (critical_lastIndex sc) (snd p)) then 1 else 0)"
  "critical_lastIndex (scan_line sc p)
     = snd (rx_test_global critical_rx (critical_lastIndex sc) (snd p))"
  by (auto simp: scan_line_def Let_def split: prod.splits)

lemma scan_line_warning:
  "warningCount (scan_line sc p) =
     (if fst (rx_test_global critical_rx (critical_lastIndex sc) (snd p))
         \<or> fst (rx_test_global error_rx (error_lastIndex sc) (snd p))
      then warningCount sc
      else warningCount sc
             + (if fst (rx_test_global warning_rx (warning_lastIndex sc) (snd p))
                then 1 else 0))"
  "warning_lastIndex (scan_line sc p) =
     (if fst (rx_test_global critical_rx (critical_lastIndex sc) (snd p))
         \<or> fst (rx_test_global error_rx (error_lastIndex sc) (snd p))
      then warning_lastIndex sc
      else snd (rx_test_global warning_rx (warning_lastIndex sc) (snd p)))"
  by (auto simp: scan_line_def Let_def split: prod.splits)

lemma critical_unchanged:
  "\<forall>p \<in> set ps. \<not> rx_test critical_rx (snd p)
     \<Longrightarrow> criticalCount (foldl scan_line sc ps) = criticalCount sc"
proof (induction ps arbitrary: sc)
  case Nil
  show ?case by simp
next
  case (Cons p ps)
  then have "\<not> fst (rx_test_global critical_rx (critical_lastIndex sc) (snd p))"
    using global_test_implies_match by auto
  with Cons show ?case by (simp add: scan_line_critical)
qed

lemma critical_once:
  "critical_lastIndex sc = 0
     \<Longrightarrow> length (filter (\<lambda>p. rx_test critical_rx (snd p)) ps) = 1
     \<Longrightarrow> criticalCount (foldl scan_line sc ps) = criticalCount sc + 1"
proof (induction ps arbitrary: sc)
  case Nil
  then show ?case by simp
next
  case (Cons p ps)
  show ?case
  proof (cases "rx_test critical_rx (snd p)")
    case True
    with Cons.prems have "filter (\<lambda>p. rx_test critical_rx (snd p)) ps = []" by simp
    then have rest: "\<forall>q \<in> set ps. \<not> rx_test critical_rx (snd q)"
      by (simp add: filter_empty_conv)
    from True Cons.prems(1)
    have "fst (rx_test_global critical_rx (critical_lastIndex sc) (snd p))"
      by (simp add: global_test_from_0)
    then have "criticalCount (scan_line sc p) = criticalCount sc + 1"
      by (simp add: scan_line_critical)
    with critical_unchanged [OF rest, of "scan_line sc p"] show ?thesis by simp
  next
    case False
    then have no: "\<not> fst (rx_test_global critical_rx (critical_lastIndex sc) (snd p))"
      using global_test_implies_match by auto
    then have "critical_lastIndex (scan_line sc p) = 0"
      "criticalCount (scan_line sc p) = criticalCount sc"
      by (simp_all add: scan_line_critical global_test_failure_resets)
    moreover from False Cons.prems
    have "length (filter (\<lambda>p. rx_test critical_rx (snd p)) ps) = 1" by simp
    ultimately show ?thesis using Cons.IH [of "scan_line sc p"] by simp
  qed
qed

lemma warning_unchanged:
  "\<forall>p \<in> set ps. \<not> rx_test warning_rx (snd p)
     \<Longrightarrow> warningCount (foldl scan_line sc ps) = warningCount sc"
proof (induction ps arbitrary: sc)
  case Nil
  show ?case by simp
next
  case (Cons p ps)
  then have "\<not> fst (rx_test_global warning_rx (warning_lastIndex sc) (snd p))"
    using global_test_implies_match by auto
  with Cons show ?case by (simp add: scan_line_warning)
qed

lemma warning_once:
  "warning_lastIndex sc = 0
     \<Longrightarrow> length (filter (\<lambda>p. rx_test warning_rx (snd p)) ps) = 1
     \<Longrightarrow> \<forall>p \<in> set ps. rx_test warning_rx (snd p)
            \<longrightarrow> \<not> rx_test critical_rx (snd p) \<and> \<not> rx_test error_rx (snd p)
     \<Longrightarrow> warningCount (foldl scan_line sc ps) = warningCount sc + 1"
proof (induction ps arbitrary: sc)
  case Nil
  then show ?case by simp
next
  case (Cons p ps)
  show ?case
  proof (cases "rx_test warning_rx (snd p)")
    case True
    with Cons.prems have "filter (\<lambda>p. rx_test warning_rx (snd p)) ps = []" by simp
    then have rest: "\<forall>q \<in> set ps. \<not> rx_test warning_rx (snd q)"
      by (simp add: filter_empty_conv)
    from True Cons.prems(3)
    have "\<not> rx_test critical_rx (snd p)" "\<not> rx_test error_rx (snd p)" by simp_all
    then have "\<not> fst (rx_test_global critical_rx (critical_lastIndex sc) (snd p))"
      "\<not> fst (rx_test_global error_rx (error_lastIndex sc) (snd p))"
      using global_test_implies_match by blast+
    moreover from True Cons.prems(1)
    have "fst (rx_test_global warning_rx (warning_lastIndex sc) (snd p))"
      by (simp add: global_test_from_0)
    ultimately have "warningCount (scan_line sc p) = warningCount sc + 1"
      by (simp add: scan_line_warning)
    with warning_unchanged [OF rest, of "scan_line sc p"] show ?thesis by simp
  next
    case False
    then have no: "\<not> fst (rx_test_global warning_rx (warning_lastIndex sc) (snd p))"
      using global_test_implies_match by auto
    with Cons.prems(1) have "warning_lastIndex (scan_line sc p) = 0"
      "warningCount (scan_line sc p) = warningCount sc"
      by (simp_all add: scan_line_warning global_test_failure_resets)
    moreover from False Cons.prems
    have "length (filter (\<lambda>p. rx_test warning_rx (snd p)) ps) = 1" by simp
    moreover from Cons.prems(3)
    have "\<forall>p \<in> set ps. rx_test warning_rx (snd p)
            \<longrightarrow> \<not> rx_test critical_rx (snd p) \<and> \<not> rx_test error_rx (snd p)" by simp
    ultimately show ?thesis using Cons.IH [of "scan_line sc p"] by simp
  qed
qed

lemma filter_enumerate:
  "length (filter (\<lambda>p. P (snd p)) (enumerate n ls)) = length (filter P ls)"
  by (induction ls arbitrary: n) auto

lemma analyze_text_counts:
  assumes "p_critical ps = 0" "p_warning ps = 0"
    and "length (filter (rx_test critical_rx) (split_lines logtext)) = 1"
    and "length (filter (rx_test warning_rx) (split_lines logtext)) = 1"
    and "\<forall>l \<in> set (split_lines logtext). rx_test warning_rx l
            \<longrightarrow> \<not> rx_test critical_rx l \<and> \<not> rx_test error_rx l"
  shows "critical (fst (analyze_text ps logtext)) = 1 \<and> warnings (fst (analyze_text ps logtext)) = 1"
proof -
  let ?ps = "enumerate 0 (split_lines logtext)"
  have c: "length (filter (\<lambda>p. rx_test critical_rx (snd p)) ?ps) = 1"
    using assms(3) by (simp add: filter_enumerate)
  have w: "length (filter (\<lambda>p. rx_test warning_rx (snd p)) ?ps) = 1"
    using assms(4) by (simp add: filter_enumerate)
  have x: "\<forall>p \<in> set ?ps. rx_test warning_rx (snd p)
            \<longrightarrow> \<not> rx_test critical_rx (snd p) \<and> \<not> rx_test error_rx (snd p)"
    using assms(5) by (auto simp: in_set_enumerate_eq)
  have "criticalCount (foldl scan_line (start_scan ps) ?ps) = 1"
    using critical_once [OF _ c, of "start_scan ps"] assms(1) by (simp add: start_scan_def)
  moreover have "warningCount (foldl scan_line (start_scan ps) ?ps) = 1"
    using warning_once [OF _ w x, of "start_scan ps"] assms(2) by (simp add: start_scan_def)
  ultimately show ?thesis
    by (simp add: analyze_text_def scan_lines_def Let_def)
qed

lemma lines_nonempty_text:
  assumes "length (filter P (split_lines logtext)) = 1" "\<not> P []"
  shows "logtext \<noteq> []"
  using assms by auto

lemma empty_line_not_critical: "\<not> rx_test critical_rx []"
  by code_simp

text \<open>
  The patterns keep their \<open>lastIndex\<close> from one request to the next: a request whose
  text is \<open>WARNING: slow\<close> leaves the warning pattern at 7, and the line \<open>WARN\<close> of the
  next request, although it matches the warning vocabulary, is not counted.
\<close>

lemma lastIndex_carries_over:
  "p_warning (snd (snd (analyze ''http://localhost:5001'' sanitizer_down fresh_patterns
                          (Some ''WARNING: slow'')))) = 7
   \<and> rx_test warning_rx ''WARN''
   \<and> (case fst (analyze ''http://localhost:5001'' sanitizer_down
                   \<lparr>p_critical = 0, p_error = 0, p_warning = 7, p_info = 0\<rparr> (Some ''WARN''))
       of Ok200 b \<Rightarrow> warnings (ab_analysis b) = 0 | _ \<Rightarrow> False)"
  by code_simp

text \<open>On a string, the handler on any body is the handler of the declared request type.\<close>

lemma analyze_handler_on_string:
  assumes "\<forall>t. san' (JStr t) = san t"
  shows "analyze_handler sanitizer_url san' ps (map_option JStr d)
           = (case analyze sanitizer_url san ps d of
                (resp, nested, ps') \<Rightarrow> (resp, map (\<lambda>(p, out). (JStr p, out)) nested, ps'))"
proof (cases d)
  case None
  then show ?thesis by (simp add: analyze_handler_def analyze_def)
next
  case (Some dat)
  show ?thesis
  proof (cases "san dat")
    case (Inl err)
    with Some assms show ?thesis
      by (simp add: analyze_handler_def analyze_def success_body_def Let_def split: prod.splits)
  next
    case (Inr r)
    with Some assms show ?thesis
      by (simp add: analyze_handler_def analyze_def success_body_def Let_def split: prod.splits)
  qed
qed

text \<open>
  The analyzer as the executor's \<open>post\<close> sees it is the handler on any body, for every
  sanitizer that fails on what is no string, as the sanitizer of this repository does.
\<close>

lemma analyze_endpoint_is_handler:
  assumes "\<forall>t. san' (JStr t) = san t"
    and "\<forall>v. (\<forall>t. v \<noteq> JStr t) \<longrightarrow> isl (san' v)"
  shows "analyze_endpoint sanitizer_url san ps inp
           = endpoint_answer (analyze_handler sanitizer_url san' ps (wire inp))"
proof (cases "wire inp")
  case None
  then show ?thesis
    by (simp add: analyze_endpoint_def analyze_handler_def endpoint_answer_def)
next
  case (Some v)
  show ?thesis
  proof (cases "\<exists>t. v = JStr t")
    case True
    then obtain t where v: "v = JStr t" by blast
    from analyze_handler_on_string [OF assms(1), of sanitizer_url ps "Some t"]
    show ?thesis
      using Some v
      by (simp add: analyze_endpoint_def endpoint_answer_def split: prod.splits analyze_response.splits)
  next
    case False
    with assms(2) have "isl (san' v)" by blast
    then obtain err where "san' v = Inl err" by (cases "san' v") auto
    with False Some show ?thesis
      by (cases v) (auto simp: analyze_endpoint_def analyze_handler_def endpoint_answer_def)
  qed
qed

text \<open>A nested call in the handler's log is the call on the request's truthy \<open>data\<close>.\<close>

lemma handler_log:
  "(p, out) \<in> set (fst (snd (analyze_handler sanitizer_url san ps d)))
     \<Longrightarrow> d = Some p \<and> truthy p \<and> out = san p"
  by (cases d) (auto simp: analyze_handler_def Let_def split: if_splits json.splits prod.splits)

text \<open>
  Claim C1, amended. Whenever the handler of \<open>/analyze\<close> makes its nested call to the
  sanitizer with a \<open>data\<close> that is a string and that call fails, the handler answers 200
  with \<open>success\<close> true, with the analysis of the request's own \<open>data\<close>, with
  \<open>sanitization\<close> null and with \<open>agentToAgentCall.success\<close> false; the failure of the
  nested call is not the answer.
\<close>

theorem nested_failure_is_absorbed:
  assumes "(JStr dat, Inl err) \<in> set (fst (snd (analyze_handler sanitizer_url san ps d)))"
  shows "d = Some (JStr dat)
    \<and> (\<exists>b. fst (analyze_handler sanitizer_url san ps d) = Ok200 b
          \<and> ab_success b
          \<and> ab_analysis b = fst (analyze_text ps dat)
          \<and> sanitization b = None
          \<and> ab_agentToAgentCall b
               = \<lparr>called = ''sanitizer'', a2a_url = sanitizer_url, a2a_success = False\<rparr>)"
proof -
  from handler_log [OF assms]
  have d: "d = Some (JStr dat)" and t: "truthy (JStr dat)" and f: "san (JStr dat) = Inl err"
    by simp_all
  obtain an sc where a: "analyze_text ps dat = (an, sc)"
    by (cases "analyze_text ps dat")
  have "fst (analyze_handler sanitizer_url san ps d)
          = Ok200 (success_body sanitizer_url an sc None)"
    using d t f a by (simp add: analyze_handler_def)
  then show ?thesis
    using d a by (simp add: success_body_def)
qed

theorem nested_failure_is_absorbed_witness:
  "(JStr ''FATAL: disk full'', Inl ''connect ECONNREFUSED 127.0.0.1:5001'')
     \<in> set (fst (snd (analyze_handler ''http://localhost:5001'' sanitizer_unreachable
                        fresh_patterns (Some (JStr ''FATAL: disk full'')))))
   \<and> (\<exists>b. fst (analyze_handler ''http://localhost:5001'' sanitizer_unreachable
                  fresh_patterns (Some (JStr ''FATAL: disk full''))) = Ok200 b
         \<and> ab_success b \<and> sanitization b = None
         \<and> \<not> a2a_success (ab_agentToAgentCall b))"
proof -
  have h: "(JStr ''FATAL: disk full'', Inl ''connect ECONNREFUSED 127.0.0.1:5001'')
     \<in> set (fst (snd (analyze_handler ''http://localhost:5001'' sanitizer_unreachable
                        fresh_patterns (Some (JStr ''FATAL: disk full'')))))"
    by (simp add: analyze_handler_def sanitizer_unreachable_def Let_def split: prod.splits)
  from nested_failure_is_absorbed [OF h] h show ?thesis by auto
qed

text \<open>
  Claim C1, counterexample. The claim as stated fails for a \<open>data\<close> that is truthy and
  no string: the nested call is made and fails, and the handler answers 500.
\<close>

theorem nested_failure_counterexample:
  "analyze_handler ''http://localhost:5001'' sanitizer_unreachable fresh_patterns
     (Some forwarded_object)
     = (Error500 ''sanitizedData.split is not a function'',
        [(forwarded_object, Inl ''connect ECONNREFUSED 127.0.0.1:5001'')],
        fresh_patterns)"
  by (simp add: analyze_handler_def sanitizer_unreachable_def forwarded_object_def)

text \<open>
  Claim C3, amended. Let the log analyzer be registered and reachable at its registered
  location, let the nested call to the sanitizer fail or return the text unchanged, and
  let the \<open>critical\<close> and \<open>warning\<close> patterns of the analyzer be in their initial state.
  For the request \<open>Analyze these logs for errors\<close> and a text with exactly one line that
  matches the critical vocabulary and exactly one line that matches the warning
  vocabulary, that line matching neither the critical nor the error vocabulary, the plan
  is the \<open>log-analyzer\<close> step alone, and the analysis in the aggregated result reports 1
  critical and 1 warning.
\<close>

theorem analysis_request_end_to_end:
  assumes "get agents ''log-analyzer'' = Some a"
    and "\<forall>ps inp. post ps (url a @ ''/analyze'') inp = analyze_endpoint sanitizer_url san ps inp"
    and "san logtext = Inl err \<or> (\<exists>r. san logtext = Inr r \<and> sanitized r = logtext)"
    and "p_critical ps = 0" and "p_warning ps = 0"
    and "length (filter (rx_test critical_rx) (split_lines logtext)) = 1"
    and "length (filter (rx_test warning_rx) (split_lines logtext)) = 1"
    and "\<forall>l \<in> set (split_lines logtext). rx_test warning_rx l
            \<longrightarrow> \<not> rx_test critical_rx l \<and> \<not> rx_test error_rx l"
  shows "generatePlan ''Analyze these logs for errors''
           = [\<lparr>agent = ''log-analyzer'', task = ''analyze'', inputFrom = ''user'',
               dependsOn = None\<rparr>]
    \<and> reported ''critical''
         (fst (plan_and_run agents post ps
                 \<lparr>request = Some ''Analyze these logs for errors'',
                  data = Some (JStr logtext)\<rparr>))
        = Some (JNum 1)
    \<and> reported ''warnings''
         (fst (plan_and_run agents post ps
                 \<lparr>request = Some ''Analyze these logs for errors'',
                  data = Some (JStr logtext)\<rparr>))
        = Some (JNum 1)"
proof -
  have nonempty: "logtext \<noteq> []"
    using assms(6) empty_line_not_critical by (rule lines_nonempty_text)
  have same: "(case san logtext of Inl e \<Rightarrow> logtext | Inr r \<Rightarrow> sanitized r) = logtext"
    using assms(3) by auto
  from analysis_step_completes
         [where post = post and san = san and sanitizer_url = sanitizer_url and ps = ps,
          OF assms(1,2) nonempty]
  obtain b ps' where b: "ab_analysis b = fst (analyze_text ps logtext)"
    and run: "executePlan agents post ps [analysis_step] (JStr logtext)
               = (Inr \<lparr>success = True,
                       er_results = [''log-analyzer'' \<mapsto> analyze_body_json b],
                       er_executionTrace = [(''log-analyzer'', JStr (summary b))]\<rparr>,
                  [\<lparr>d_step = analysis_step, d_url = url a @ ''/analyze'',
                    d_input = Json (JStr logtext)\<rparr>],
                  ps')"
    unfolding same by blast
  have counts: "critical (ab_analysis b) = 1" "warnings (ab_analysis b) = 1"
    using analyze_text_counts [OF assms(4-8)] b by simp_all
  have payload:
    "initial_payload ''Analyze these logs for errors'' (Some (JStr logtext)) = JStr logtext"
    using nonempty by (simp add: initial_payload_def or_else_def)
  have resp: "fst (plan_and_run agents post ps
                 \<lparr>request = Some ''Analyze these logs for errors'',
                  data = Some (JStr logtext)\<rparr>)
     = Completed ''Analyze these logs for errors'' [analysis_step]
         \<lparr>success = True, er_results = [''log-analyzer'' \<mapsto> analyze_body_json b],
          er_executionTrace = [(''log-analyzer'', JStr (summary b))]\<rparr>"
    by (simp add: plan_and_run_def plan_for_analysis payload run Let_def)
  have "field ''analysis'' (analyze_body_json b) = Some (analysis_json (ab_analysis b))"
    by (simp add: analyze_body_json_def)
  moreover have "field ''critical'' (analysis_json (ab_analysis b)) = Some (JNum 1)"
    "field ''warnings'' (analysis_json (ab_analysis b)) = Some (JNum 1)"
    using counts by (simp_all add: analysis_json_def)
  ultimately show ?thesis
    using plan_for_analysis by (simp add: resp reported_def analysis_step_def)
qed

theorem analysis_request_end_to_end_witness:
  "get (register log_analyzer_info empty_registry) ''log-analyzer'' = Some log_analyzer_info
   \<and> sanitizer_down clean_log = Inl ''connect ECONNREFUSED 127.0.0.1:5001''
   \<and> p_critical fresh_patterns = 0 \<and> p_warning fresh_patterns = 0
   \<and> length (filter (rx_test critical_rx) (split_lines clean_log)) = 1
   \<and> length (filter (rx_test warning_rx) (split_lines clean_log)) = 1
   \<and> reported ''critical''
        (fst (plan_and_run (register log_analyzer_info empty_registry) analyzer_alone
                fresh_patterns
                \<lparr>request = Some ''Analyze these logs for errors'',
                 data = Some (JStr clean_log)\<rparr>)) = Some (JNum 1)
   \<and> reported ''warnings''
        (fst (plan_and_run (register log_analyzer_info empty_registry) analyzer_alone
                fresh_patterns
                \<lparr>request = Some ''Analyze these logs for errors'',
                 data = Some (JStr clean_log)\<rparr>)) = Some (JNum 1)"
proof -
  have a: "get (register log_analyzer_info empty_registry) ''log-analyzer''
             = Some log_analyzer_info"
    by (simp add: get_def register_def empty_registry_def log_analyzer_info_def)
  have b: "\<forall>ps inp. analyzer_alone ps (url log_analyzer_info @ ''/analyze'') inp
             = analyze_endpoint ''http://localhost:5001'' sanitizer_down ps inp"
    by (simp add: analyzer_alone_def)
  have c: "sanitizer_down clean_log = Inl ''connect ECONNREFUSED 127.0.0.1:5001''
             \<or> (\<exists>r. sanitizer_down clean_log = Inr r \<and> sanitized r = clean_log)"
    by (simp add: sanitizer_down_def)
  have d: "p_critical fresh_patterns = 0" and e: "p_warning fresh_patterns = 0"
    by (simp_all add: fresh_patterns_def)
  have f: "length (filter (rx_test critical_rx) (split_lines clean_log)) = 1"
    by code_simp
  have g: "length (filter (rx_test warning_rx) (split_lines clean_log)) = 1"
    by code_simp
  have h: "\<forall>l \<in> set (split_lines clean_log). rx_test warning_rx l
            \<longrightarrow> \<not> rx_test critical_rx l \<and> \<not> rx_test error_rx l"
    by code_simp
  from analysis_request_end_to_end
         [where agents = "register log_analyzer_info empty_registry"
            and a = log_analyzer_info and post = analyzer_alone
            and sanitizer_url = "''http://localhost:5001''" and san = sanitizer_down
            and logtext = clean_log and ps = fresh_patterns, OF a b c d e f g h]
       a c d e f g
  show ?thesis by (simp add: sanitizer_down_def)
qed

text \<open>
  Claim C3, counterexample. The claim as stated fails when the line of the warning
  vocabulary also matches the error vocabulary: a line is counted once, for the first of critical, error, warning
  and info that matches it.
\<close>

theorem analysis_request_counterexample:
  "length (filter (rx_test critical_rx) (split_lines two_line_log)) = 1
   \<and> length (filter (rx_test warning_rx) (split_lines two_line_log)) = 1
   \<and> generatePlan ''Analyze these logs for errors'' = [analysis_step]
   \<and> reported ''critical''
        (fst (plan_and_run (register log_analyzer_info empty_registry) analyzer_alone
                fresh_patterns analysis_request)) = Some (JNum 1)
   \<and> reported ''errors''
        (fst (plan_and_run (register log_analyzer_info empty_registry) analyzer_alone
                fresh_patterns analysis_request)) = Some (JNum 1)
   \<and> reported ''warnings''
        (fst (plan_and_run (register log_analyzer_info empty_registry) analyzer_alone
                fresh_patterns analysis_request)) = Some (JNum 0)"
  by code_simp

end
